theory Spec2Isabelle
  imports Main
begin

section \<open>JavaScript values as the code uses them\<close>

text \<open>
  Strings are modelled as \<open>string\<close> (lists of 8-bit characters), numbers as \<open>int\<close>
  (array indices as \<open>nat\<close>), an optional field \<open>f?: T\<close> as \<open>T option\<close> with
  \<open>None\<close> for \<open>undefined\<close>. The box-drawing glyphs of the renderer, which are
  outside the 8-bit range, are constructors of the type \<open>cell\<close> below.
\<close>

text \<open>Truthiness of an optional string: \<open>undefined\<close> and \<open>""\<close> are falsy.\<close>

definition truthy :: "string option \<Rightarrow> bool" where
  "truthy s = (case s of None \<Rightarrow> False | Some str \<Rightarrow> str \<noteq> [])"

text \<open>\<open>s || undefined\<close> for a string \<open>s\<close>.\<close>

definition orUndefined :: "string \<Rightarrow> string option" where
  "orUndefined s = (if s = [] then None else Some s)"

text \<open>\<open>s || ''\<close> for an optional string \<open>s\<close>.\<close>

definition orEmpty :: "string option \<Rightarrow> string" where
  "orEmpty s = (case s of None \<Rightarrow> [] | Some str \<Rightarrow> str)"

text \<open>\<open>s.slice(0, n)\<close>.\<close>

definition slice0 :: "nat \<Rightarrow> string \<Rightarrow> string" where
  "slice0 n s = take n s"

text \<open>
  The decimal rendering of an integer inside a template literal, \<open>`${n}`\<close>.
  (JavaScript switches to exponent notation from \<open>1e21\<close> on; array indices and
  tile coordinates stay far below.)
\<close>

fun string_of_nat :: "nat \<Rightarrow> string" where
  "string_of_nat n =
     (if n < 10 then [char_of (48 + n)]
      else string_of_nat (n div 10) @ [char_of (48 + n mod 10)])"

declare string_of_nat.simps [simp del]

definition string_of_int :: "int \<Rightarrow> string" where
  "string_of_int k =
     (if k < 0 then CHR ''-'' # string_of_nat (nat (- k)) else string_of_nat (nat k))"

text \<open>\<open>Array.prototype.findIndex\<close>; \<open>None\<close> stands for the result \<open>-1\<close>.\<close>

fun findIndex :: "('a \<Rightarrow> bool) \<Rightarrow> 'a list \<Rightarrow> nat option" where
  "findIndex P [] = None"
| "findIndex P (x # xs) =
     (if P x then Some 0 else map_option Suc (findIndex P xs))"

text \<open>\<open>xs.splice(k, 1)\<close>: the list without its element at index \<open>k\<close>.\<close>

definition splice1 :: "nat \<Rightarrow> 'a list \<Rightarrow> 'a list" where
  "splice1 k xs = take k xs @ drop (Suc k) xs"

text \<open>
  \<open>uuidv4()\<close> is an external source of identifiers. Each call site is named, and
  the identifiers it returns are a parameter of every operation that calls it.
\<close>

datatype uuid_site =
    NodeId
  | ConnectorId
  | FromAnchorId
  | ToAnchorId
  | DefaultViewId
  | FullAnchorId nat nat nat

type_synonym uuidv4 = "uuid_site \<Rightarrow> string"

section \<open>Entity types (types.ts)\<close>

record Coords =
  coord_x :: int
  coord_y :: int

record Icon =
  icon_id :: string
  icon_name :: string
  icon_url :: string
  icon_collection :: "string option"
  icon_isIsometric :: "bool option"
  icon_scale :: "int option"

record Color =
  col_id :: string
  col_value :: string

record ModelItem =
  mi_id :: string
  mi_name :: string
  mi_description :: "string option"
  mi_icon :: "string option"

record ViewItem =
  vi_id :: string
  vi_tile :: Coords
  vi_labelHeight :: "int option"

datatype LabelLine = Line1 | Line2

record ConnectorLabel =
  cl_id :: string
  cl_text :: string
  cl_position :: int
  cl_height :: "int option"
  cl_line :: "LabelLine option"
  cl_showLine :: "bool option"

record AnchorRef =
  ref_item :: "string option"
  ref_anchor :: "string option"
  ref_tile :: "Coords option"

record ConnectorAnchor =
  a_id :: string
  a_ref :: AnchorRef

datatype ConnectorStyle = SOLID | DOTTED | DASHED

datatype ConnectorLineType = SINGLE | DOUBLE | DOUBLE_WITH_CIRCLE

record Connector =
  c_id :: string
  c_description :: "string option"
  c_startLabel :: "string option"
  c_endLabel :: "string option"
  c_startLabelHeight :: "int option"
  c_centerLabelHeight :: "int option"
  c_endLabelHeight :: "int option"
  c_labels :: "ConnectorLabel list option"
  c_color :: "string option"
  c_customColor :: "string option"
  c_width :: "int option"
  c_style :: "ConnectorStyle option"
  c_lineType :: "ConnectorLineType option"
  c_showArrow :: "bool option"
  c_anchors :: "ConnectorAnchor list"

record Rectangle =
  r_id :: string
  r_color :: "string option"
  r_customColor :: "string option"
  r_from :: Coords
  r_to :: Coords

datatype TextBoxOrientation = OrientX | OrientY

record TextBox =
  tb_id :: string
  tb_tile :: Coords
  tb_content :: string
  tb_fontSize :: "int option"
  tb_orientation :: "TextBoxOrientation option"

record View =
  v_id :: string
  v_name :: string
  v_description :: "string option"
  v_lastUpdated :: "string option"
  v_items :: "ViewItem list"
  v_connectors :: "Connector list option"
  v_rectangles :: "Rectangle list option"
  v_textBoxes :: "TextBox list option"

record Model =
  m_version :: "string option"
  m_title :: string
  m_description :: "string option"
  m_items :: "ModelItem list"
  m_views :: "View list"
  m_icons :: "Icon list"
  m_colors :: "Color list"

record CompactMeta =
  meta_f :: string
  meta_v :: string

text \<open>
  \<open>cd_i\<close> holds the \<open>[name, icon, description]\<close> triples, \<open>cd_v\<close> the per-view pairs
  of \<open>[itemIndex, x, y]\<close> positions and \<open>[fromIndex, toIndex]\<close> connections.
\<close>

record CompactDiagram =
  cd_t :: string
  cd_i :: "(string \<times> string \<times> string) list"
  cd_v :: "((int \<times> int \<times> int) list \<times> (int \<times> int) list) list"
  cd_meta :: CompactMeta

definition DEFAULT_COLOR :: Color where
  "DEFAULT_COLOR = \<lparr> col_id = ''__DEFAULT__'', col_value = ''#6366f1'' \<rparr>"

definition DEFAULT_LABEL_HEIGHT :: int where
  "DEFAULT_LABEL_HEIGHT = 80"

definition INITIAL_MODEL :: Model where
  "INITIAL_MODEL =
     \<lparr> m_version = Some ''1.0'', m_title = ''Untitled'', m_description = None,
       m_items = [], m_views = [], m_icons = [], m_colors = [DEFAULT_COLOR] \<rparr>"

section \<open>Format converter (utils/formatConverter.ts)\<close>

text \<open>The identifier \<open>`item-${index}`\<close>.\<close>

definition itemId :: "int \<Rightarrow> string" where
  "itemId k = ''item-'' @ string_of_int k"

text \<open>One connector of \<open>toFull\<close>, built from the connection \<open>conn\<close> at \<open>connIndex\<close>.\<close>

definition toFullConnector :: "uuidv4 \<Rightarrow> nat \<Rightarrow> nat \<Rightarrow> int \<times> int \<Rightarrow> Connector" where
  "toFullConnector u viewIndex connIndex conn =
     (let fromItemId = itemId (fst conn);
          toItemId = itemId (snd conn);
          anchors =
            [\<lparr> a_id = u (FullAnchorId viewIndex connIndex 0),
               a_ref = \<lparr> ref_item = Some fromItemId, ref_anchor = Some ''center'',
                         ref_tile = None \<rparr> \<rparr>,
             \<lparr> a_id = u (FullAnchorId viewIndex connIndex 1),
               a_ref = \<lparr> ref_item = Some toItemId, ref_anchor = Some ''center'',
                         ref_tile = None \<rparr> \<rparr>]
      in \<lparr> c_id = ''connector-'' @ string_of_nat viewIndex @ ''-'' @ string_of_nat connIndex,
           c_description = None, c_startLabel = None, c_endLabel = None,
           c_startLabelHeight = None, c_centerLabelHeight = None, c_endLabelHeight = None,
           c_labels = None, c_color = None, c_customColor = None, c_width = None,
           c_style = Some SOLID, c_lineType = Some SINGLE, c_showArrow = Some True,
           c_anchors = anchors \<rparr>)"

definition toFullViewItem :: "int \<times> int \<times> int \<Rightarrow> ViewItem" where
  "toFullViewItem pos =
     (case pos of (itemIndex, x, y) \<Rightarrow>
        \<lparr> vi_id = itemId itemIndex,
          vi_tile = \<lparr> coord_x = x, coord_y = y \<rparr>,
          vi_labelHeight = Some DEFAULT_LABEL_HEIGHT \<rparr>)"

definition toFullView ::
  "uuidv4 \<Rightarrow> nat \<Rightarrow> (int \<times> int \<times> int) list \<times> (int \<times> int) list \<Rightarrow> View" where
  "toFullView u viewIndex viewData =
     (case viewData of (positions, connections) \<Rightarrow>
        (let viewItems = map toFullViewItem positions;
             connectors =
               map (\<lambda>(connIndex, conn). toFullConnector u viewIndex connIndex conn)
                 (enumerate 0 connections)
         in \<lparr> v_id = ''view-'' @ string_of_nat viewIndex,
              v_name = (if viewIndex = 0 then ''Main View''
                        else ''View '' @ string_of_nat (viewIndex + 1)),
              v_description = None, v_lastUpdated = None,
              v_items = viewItems,
              v_connectors = Some connectors,
              v_rectangles = Some [],
              v_textBoxes = Some [] \<rparr>))"

definition toFullItem :: "nat \<Rightarrow> string \<times> string \<times> string \<Rightarrow> ModelItem" where
  "toFullItem index item =
     (case item of (name, icon, description) \<Rightarrow>
        \<lparr> mi_id = itemId (int index),
          mi_name = name,
          mi_description = orUndefined description,
          mi_icon = orUndefined icon \<rparr>)"

definition toFull :: "uuidv4 \<Rightarrow> CompactDiagram \<Rightarrow> Model" where
  "toFull u compact =
     (let items = map (\<lambda>(index, item). toFullItem index item) (enumerate 0 (cd_i compact));
          views = map (\<lambda>(viewIndex, viewData). toFullView u viewIndex viewData)
                    (enumerate 0 (cd_v compact))
      in \<lparr> m_version = Some (meta_v (cd_meta compact)),
           m_title = cd_t compact,
           m_description = None,
           m_items = items,
           m_views = views,
           m_icons = [],
           m_colors = [DEFAULT_COLOR] \<rparr>)"

text \<open>
  The \<open>Map\<close> from item identifier to index that \<open>toCompact\<close> fills with
  \<open>forEach\<close>: a later item with the same identifier overwrites an earlier one.
\<close>

definition itemIndexMap :: "ModelItem list \<Rightarrow> (string \<rightharpoonup> nat)" where
  "itemIndexMap items =
     fold (\<lambda>(index, item) mp. mp(mi_id item \<mapsto> index)) (enumerate 0 items) Map.empty"

definition toCompactItem :: "ModelItem \<Rightarrow> string \<times> string \<times> string" where
  "toCompactItem item =
     (slice0 30 (mi_name item), orEmpty (mi_icon item),
      slice0 100 (orEmpty (mi_description item)))"

definition toCompactPosition :: "(string \<rightharpoonup> nat) \<Rightarrow> ViewItem \<Rightarrow> int \<times> int \<times> int" where
  "toCompactPosition mp viewItem =
     (let itemIndex = (case mp (vi_id viewItem) of None \<Rightarrow> 0 | Some k \<Rightarrow> int k)
      in (itemIndex, coord_x (vi_tile viewItem), coord_y (vi_tile viewItem)))"

text \<open>
  The callback mapped over the connectors of a view; \<open>None\<close> is its result
  \<open>null\<close>, which the following \<open>filter\<close> removes.
\<close>

definition toCompactConnection :: "(string \<rightharpoonup> nat) \<Rightarrow> Connector \<Rightarrow> (int \<times> int) option" where
  "toCompactConnection mp connector =
     (if length (c_anchors connector) < 2 then None
      else
        (let fromAnchor = hd (c_anchors connector);
             toAnchor = last (c_anchors connector);
             fromItemId = ref_item (a_ref fromAnchor);
             toItemId = ref_item (a_ref toAnchor)
         in if \<not> truthy fromItemId \<or> \<not> truthy toItemId then None
            else
              (case (mp (the fromItemId), mp (the toItemId)) of
                 (Some fromIndex, Some toIndex) \<Rightarrow> Some (int fromIndex, int toIndex)
               | _ \<Rightarrow> None)))"

definition toCompactView ::
  "(string \<rightharpoonup> nat) \<Rightarrow> View \<Rightarrow> (int \<times> int \<times> int) list \<times> (int \<times> int) list" where
  "toCompactView mp view =
     (let positions = map (toCompactPosition mp) (v_items view);
          connections =
            List.map_filter (toCompactConnection mp)
              (case v_connectors view of None \<Rightarrow> [] | Some cs \<Rightarrow> cs)
      in (positions, connections))"

definition toCompact :: "Model \<Rightarrow> CompactDiagram" where
  "toCompact full =
     (let mp = itemIndexMap (m_items full);
          items = map toCompactItem (m_items full);
          views = map (toCompactView mp) (m_views full);
          views' = (if length views = 0 then [([], [])] else views)
      in \<lparr> cd_t = slice0 40 (m_title full),
           cd_i = items,
           cd_v = views',
           cd_meta = \<lparr> meta_f = ''compact'', meta_v = ''1.0'' \<rparr> \<rparr>)"

text \<open>
  \<open>validateCompact\<close> on a value of type \<open>CompactDiagram\<close>: the \<open>typeof\<close> and
  \<open>Array.isArray\<close> tests hold by the type, the length and metadata tests remain.
  The result is the pair \<open>(valid, errors)\<close>.
\<close>

definition validateCompactItem :: "nat \<Rightarrow> string \<times> string \<times> string \<Rightarrow> string list" where
  "validateCompactItem index item =
     (case item of (name, icon, description) \<Rightarrow>
        (if length name > 30
         then [''Item '' @ string_of_nat index @ '' name exceeds 30 characters'']
         else [])
        @ (if length description > 100
           then [''Item '' @ string_of_nat index @ '' description exceeds 100 characters'']
           else []))"

definition validateCompact :: "CompactDiagram \<Rightarrow> bool \<times> string list" where
  "validateCompact diagram =
     (let errors =
            (if length (cd_t diagram) > 40 then [''Title (t) exceeds 40 characters''] else [])
            @ concat (map (\<lambda>(index, item). validateCompactItem index item)
                        (enumerate 0 (cd_i diagram)))
            @ (if meta_f (cd_meta diagram) \<noteq> ''compact''
               then [''Metadata format (_.f) must be '' @ [CHR 0x22] @ ''compact''
                       @ [CHR 0x22]]
               else [])
      in (errors = [], errors))"


text \<open>
  A diagram handed to the system is a full \<open>Model\<close> or a \<open>CompactDiagram\<close>;
  \<open>null\<close> and \<open>undefined\<close> are \<open>None\<close>.
\<close>

datatype Diagram = Full Model | Compact CompactDiagram

datatype Format = FormatCompact | FormatFull | FormatUnknown

text \<open>
  \<open>detectFormat\<close> on typed values: a \<open>CompactDiagram\<close> has the metadata object and
  the arrays \<open>i\<close> and \<open>v\<close>, so both compact tests answer \<open>compact\<close>; a \<open>Model\<close>
  has none of the keys \<open>_\<close>, \<open>t\<close>, \<open>i\<close>, \<open>v\<close> and has \<open>title\<close>, \<open>items\<close>, \<open>views\<close>.
\<close>

definition detectFormat :: "Diagram option \<Rightarrow> Format" where
  "detectFormat diagram =
     (case diagram of
        None \<Rightarrow> FormatUnknown
      | Some (Compact c) \<Rightarrow>
          (if meta_f (cd_meta c) = ''compact'' then FormatCompact else FormatCompact)
      | Some (Full m) \<Rightarrow> FormatFull)"

definition normalize :: "uuidv4 \<Rightarrow> Diagram \<Rightarrow> Model" where
  "normalize u diagram =
     (case diagram of
        Compact c \<Rightarrow> toFull u c
      | Full m \<Rightarrow> m)"

section \<open>Diagram state (state/DiagramState.ts)\<close>

datatype error = TypeError

record ConnectorPath =
  cp_tiles :: "Coords list"
  cp_rectangle :: "Coords \<times> Coords"

record Scene =
  sc_connectors :: "(string \<times> ConnectorPath) list"
  sc_textBoxes :: "(string \<times> int \<times> int) list"

definition INITIAL_SCENE :: Scene where
  "INITIAL_SCENE = \<lparr> sc_connectors = [], sc_textBoxes = [] \<rparr>"

record DiagramState =
  model :: Model
  scene :: Scene

definition createDefaultView :: "uuidv4 \<Rightarrow> View" where
  "createDefaultView u =
     \<lparr> v_id = u DefaultViewId, v_name = ''Main View'',
       v_description = None, v_lastUpdated = None,
       v_items = [], v_connectors = Some [], v_rectangles = Some [], v_textBoxes = Some [] \<rparr>"

text \<open>The constructor \<open>new DiagramState(diagram)\<close>.\<close>

definition new_DiagramState :: "uuidv4 \<Rightarrow> Diagram option \<Rightarrow> DiagramState" where
  "new_DiagramState u diagram =
     (case diagram of
        None \<Rightarrow>
          \<lparr> model = INITIAL_MODEL \<lparr> m_views := [createDefaultView u] \<rparr>,
            scene = INITIAL_SCENE \<rparr>
      | Some d \<Rightarrow>
          (let m = normalize u d
           in \<lparr> model = (if length (m_views m) = 0
                         then m \<lparr> m_views := [createDefaultView u] \<rparr>
                         else m),
                scene = INITIAL_SCENE \<rparr>))"

text \<open>\<open>this.model.views[0]\<close>: \<open>undefined\<close> when there is no view.\<close>

definition primaryView :: "DiagramState \<Rightarrow> View option" where
  "primaryView S = (case m_views (model S) of [] \<Rightarrow> None | view # _ \<Rightarrow> Some view)"

definition getView :: "string option \<Rightarrow> DiagramState \<Rightarrow> View option" where
  "getView viewId S =
     (if \<not> truthy viewId then primaryView S
      else (case find (\<lambda>v. v_id v = the viewId) (m_views (model S)) of
              Some view \<Rightarrow> Some view
            | None \<Rightarrow> primaryView S))"

text \<open>
  The expression \<open>viewId || this.primaryView.id\<close> with which every mutation starts:
  reading \<open>id\<close> of a missing primary view raises a \<open>TypeError\<close>.
\<close>

definition viewIdOrPrimary :: "string option \<Rightarrow> DiagramState \<Rightarrow> error + string" where
  "viewIdOrPrimary viewId S =
     (if truthy viewId then Inr (the viewId)
      else (case primaryView S of None \<Rightarrow> Inl TypeError | Some view \<Rightarrow> Inr (v_id view)))"

text \<open>
  \<open>const view = draft.views.find(P); if (view) { ... }\<close>: the first view that
  satisfies \<open>P\<close> is changed in place by \<open>f\<close>, every other view is left as it is.
\<close>

definition mutateFoundView :: "(View \<Rightarrow> bool) \<Rightarrow> (View \<Rightarrow> View) \<Rightarrow> View list \<Rightarrow> View list" where
  "mutateFoundView P f views =
     (case findIndex P views of None \<Rightarrow> views | Some k \<Rightarrow> views[k := f (views ! k)])"

text \<open>
  Every mutation is \<open>produce(this.model, recipe)\<close> followed by the constructor. The
  recipe is modelled by the model it yields: \<open>produce\<close> hands back the draft as the
  recipe left it, and the model it was given is a value that nothing changes.
\<close>

record addNode_params =
  an_name :: string
  an_icon :: "string option"
  an_description :: "string option"
  an_x :: int
  an_y :: int
  an_labelHeight :: "int option"
  an_viewId :: "string option"

definition addNodeToView :: "string \<Rightarrow> addNode_params \<Rightarrow> View \<Rightarrow> View" where
  "addNodeToView nodeId params view =
     (let viewItem =
            \<lparr> vi_id = nodeId,
              vi_tile = \<lparr> coord_x = an_x params, coord_y = an_y params \<rparr>,
              vi_labelHeight =
                Some (case an_labelHeight params of None \<Rightarrow> DEFAULT_LABEL_HEIGHT
                      | Some h \<Rightarrow> h) \<rparr>
      in view \<lparr> v_items := v_items view @ [viewItem] \<rparr>)"

definition addNode :: "uuidv4 \<Rightarrow> addNode_params \<Rightarrow> DiagramState \<Rightarrow> error + DiagramState" where
  "addNode u params S =
     (let nodeId = u NodeId
      in case viewIdOrPrimary (an_viewId params) S of
           Inl e \<Rightarrow> Inl e
         | Inr viewId \<Rightarrow>
             (let draft = model S;
                  modelItem =
                    \<lparr> mi_id = nodeId, mi_name = an_name params,
                      mi_description = an_description params, mi_icon = an_icon params \<rparr>;
                  newModel =
                    draft \<lparr> m_items := m_items draft @ [modelItem],
                            m_views := mutateFoundView (\<lambda>v. v_id v = viewId)
                                         (addNodeToView nodeId params) (m_views draft) \<rparr>
              in Inr (new_DiagramState u (Some (Full newModel)))))"

definition removeNodeFromView :: "string \<Rightarrow> View \<Rightarrow> View" where
  "removeNodeFromView nodeId view =
     (let items' =
            (case findIndex (\<lambda>i. vi_id i = nodeId) (v_items view) of
               None \<Rightarrow> v_items view
             | Some viewItemIndex \<Rightarrow> splice1 viewItemIndex (v_items view));
          connectors' =
            (case v_connectors view of
               None \<Rightarrow> None
             | Some cs \<Rightarrow>
                 Some (filter (\<lambda>connector.
                         \<not> list_ex (\<lambda>anchor. ref_item (a_ref anchor) = Some nodeId)
                              (c_anchors connector)) cs))
      in view \<lparr> v_items := items', v_connectors := connectors' \<rparr>)"

definition removeNode :: "uuidv4 \<Rightarrow> string \<Rightarrow> string option \<Rightarrow> DiagramState \<Rightarrow> error + DiagramState" where
  "removeNode u nodeId viewId S =
     (case viewIdOrPrimary viewId S of
        Inl e \<Rightarrow> Inl e
      | Inr targetViewId \<Rightarrow>
          (let draft = model S;
               items' =
                 (case findIndex (\<lambda>i. mi_id i = nodeId) (m_items draft) of
                    None \<Rightarrow> m_items draft
                  | Some itemIndex \<Rightarrow> splice1 itemIndex (m_items draft));
               newModel =
                 draft \<lparr> m_items := items',
                         m_views := mutateFoundView (\<lambda>v. v_id v = targetViewId)
                                      (removeNodeFromView nodeId) (m_views draft) \<rparr>
           in Inr (new_DiagramState u (Some (Full newModel)))))"

record NodeInfo =
  ni_id :: string
  ni_name :: string
  ni_icon :: "string option"
  ni_description :: "string option"
  ni_position :: "Coords option"

definition nodeInfo :: "View \<Rightarrow> ModelItem \<Rightarrow> NodeInfo" where
  "nodeInfo view item =
     (let viewItem = find (\<lambda>vi. vi_id vi = mi_id item) (v_items view)
      in \<lparr> ni_id = mi_id item, ni_name = mi_name item, ni_icon = mi_icon item,
           ni_description = mi_description item,
           ni_position =
             (case viewItem of
                None \<Rightarrow> None
              | Some vi \<Rightarrow>
                  Some \<lparr> coord_x = coord_x (vi_tile vi), coord_y = coord_y (vi_tile vi) \<rparr>) \<rparr>)"

text \<open>
  \<open>listNodes\<close> reads \<open>view.items\<close> once per model item: without a view it raises as
  soon as there is an item.
\<close>

definition listNodes :: "string option \<Rightarrow> DiagramState \<Rightarrow> error + NodeInfo list" where
  "listNodes viewId S =
     (case getView viewId S of
        None \<Rightarrow> (if m_items (model S) = [] then Inr [] else Inl TypeError)
      | Some view \<Rightarrow> Inr (map (nodeInfo view) (m_items (model S))))"

record addConnector_params =
  ac_fromNodeId :: string
  ac_toNodeId :: string
  ac_style :: "ConnectorStyle option"
  ac_lineType :: "ConnectorLineType option"
  ac_color :: "string option"
  ac_showArrow :: "bool option"
  ac_label :: "string option"
  ac_viewId :: "string option"

text \<open>The anchors and the connector that \<open>addConnector\<close> builds.\<close>

definition newConnector :: "uuidv4 \<Rightarrow> string \<Rightarrow> addConnector_params \<Rightarrow> Connector" where
  "newConnector u connectorId params =
     (let anchors =
            [\<lparr> a_id = u FromAnchorId,
               a_ref = \<lparr> ref_item = Some (ac_fromNodeId params),
                         ref_anchor = Some ''center'', ref_tile = None \<rparr> \<rparr>,
             \<lparr> a_id = u ToAnchorId,
               a_ref = \<lparr> ref_item = Some (ac_toNodeId params),
                         ref_anchor = Some ''center'', ref_tile = None \<rparr> \<rparr>]
      in \<lparr> c_id = connectorId,
           c_description = ac_label params,
           c_startLabel = None, c_endLabel = None,
           c_startLabelHeight = None, c_centerLabelHeight = None,
           c_endLabelHeight = None, c_labels = None,
           c_color = ac_color params, c_customColor = None, c_width = None,
           c_style = Some (case ac_style params of None \<Rightarrow> SOLID | Some st \<Rightarrow> st),
           c_lineType = Some (case ac_lineType params of None \<Rightarrow> SINGLE | Some lt \<Rightarrow> lt),
           c_showArrow = Some (case ac_showArrow params of None \<Rightarrow> True | Some b \<Rightarrow> b),
           c_anchors = anchors \<rparr>)"

text \<open>
  The recipe of \<open>addConnector\<close> on the view it found: it returns early, leaving the
  view as it is, unless both endpoints are placed in the view.
\<close>

definition addConnectorToView :: "uuidv4 \<Rightarrow> string \<Rightarrow> addConnector_params \<Rightarrow> View \<Rightarrow> View" where
  "addConnectorToView u connectorId params view =
     (let fromExists = list_ex (\<lambda>i. vi_id i = ac_fromNodeId params) (v_items view);
          toExists = list_ex (\<lambda>i. vi_id i = ac_toNodeId params) (v_items view)
      in if \<not> fromExists \<or> \<not> toExists then view
         else
           (let connector = newConnector u connectorId params
            in view \<lparr> v_connectors :=
                        Some ((case v_connectors view of None \<Rightarrow> [] | Some cs \<Rightarrow> cs)
                              @ [connector]) \<rparr>))"

definition addConnector ::
  "uuidv4 \<Rightarrow> addConnector_params \<Rightarrow> DiagramState \<Rightarrow> error + DiagramState" where
  "addConnector u params S =
     (let connectorId = u ConnectorId
      in case viewIdOrPrimary (ac_viewId params) S of
           Inl e \<Rightarrow> Inl e
         | Inr viewId \<Rightarrow>
             (let draft = model S;
                  newModel =
                    draft \<lparr> m_views := mutateFoundView (\<lambda>v. v_id v = viewId)
                                         (addConnectorToView u connectorId params)
                                         (m_views draft) \<rparr>
              in Inr (new_DiagramState u (Some (Full newModel)))))"

record ConnectorInfo =
  ci_id :: string
  ci_from :: string
  ci_to :: string
  ci_style :: "ConnectorStyle option"
  ci_label :: "string option"

definition connectorInfo :: "Connector \<Rightarrow> ConnectorInfo" where
  "connectorInfo c =
     \<lparr> ci_id = c_id c,
       ci_from = (case c_anchors c of [] \<Rightarrow> [] | a # _ \<Rightarrow> orEmpty (ref_item (a_ref a))),
       ci_to = (if c_anchors c = [] then []
                else orEmpty (ref_item (a_ref (last (c_anchors c))))),
       ci_style = c_style c,
       ci_label = c_description c \<rparr>"

definition listConnectors :: "string option \<Rightarrow> DiagramState \<Rightarrow> error + ConnectorInfo list" where
  "listConnectors viewId S =
     (case getView viewId S of
        None \<Rightarrow> Inl TypeError
      | Some view \<Rightarrow>
          (let connectors = (case v_connectors view of None \<Rightarrow> [] | Some cs \<Rightarrow> cs)
           in Inr (map connectorInfo connectors)))"


section \<open>ASCII renderer (utils/asciiRenderer.ts)\<close>

text \<open>
  A cell of the character grid holds one character: a character of a node name
  (\<open>Ch\<close>, the blank included) or one of the glyphs the renderer draws:
  \<open>HLine\<close> and \<open>VLine\<close> for the straight segments (U+2500, U+2502), the
  four corners (U+250C, U+2510, U+2514, U+2518) and the four arrow heads
  (U+25B6, U+25C0, U+25BC, U+25B2).
\<close>

datatype cell =
    Ch char
  | HLine
  | VLine
  | TopLeft
  | TopRight
  | BottomLeft
  | BottomRight
  | ArrowRight
  | ArrowLeft
  | ArrowDown
  | ArrowUp

type_synonym grid = "cell list list"

definition safeWrite :: "grid \<Rightarrow> int \<Rightarrow> int \<Rightarrow> cell \<Rightarrow> grid" where
  "safeWrite grid y x char =
     (if 0 \<le> y \<and> y < int (length grid) \<and> 0 \<le> x \<and> x < int (length (grid ! nat y))
      then
        (let current = grid ! nat y ! nat x
         in if current = Ch CHR '' '' \<or> current = HLine \<or> current = VLine
            then grid[nat y := (grid ! nat y)[nat x := char]]
            else grid)
      else grid)"

definition drawLine :: "grid \<Rightarrow> int \<Rightarrow> int \<Rightarrow> int \<Rightarrow> int \<Rightarrow> bool \<Rightarrow> grid" where
  "drawLine grid x1 y1 x2 y2 showArrow =
     (let dx = x2 - x1;
          dy = y2 - y1;
          midX = x1 + dx div 2;
          g1 = fold (\<lambda>x g. safeWrite g y1 x HLine) [min x1 midX + 1 .. max x1 midX - 1] grid;
          g2 = fold (\<lambda>y g. safeWrite g y midX VLine) [min y1 y2 + 1 .. max y1 y2 - 1] g1;
          g3 = fold (\<lambda>x g. safeWrite g y2 x HLine) [min midX x2 + 1 .. max midX x2 - 1] g2;
          g4 = (if dx \<noteq> 0 \<and> dy \<noteq> 0
                then
                  (let corner1 = (if dy > 0 then (if dx > 0 then TopRight else TopLeft)
                                  else if dx > 0 then BottomRight else BottomLeft);
                       corner2 = (if dy > 0 then (if dx > 0 then BottomLeft else BottomRight)
                                  else if dx > 0 then TopLeft else TopRight)
                   in safeWrite (safeWrite g3 y1 midX corner1) y2 midX corner2)
                else g3)
      in if showArrow
         then
           (let arrowChar = (if dx > 0 then ArrowRight else if dx < 0 then ArrowLeft
                             else if dy > 0 then ArrowDown else ArrowUp);
                arrowX = x2 + (if dx > 0 then - 2 else if dx < 0 then 2 else 0);
                arrowY = y2 + (if dy > 0 then - 1 else if dy < 0 then 1 else 0)
            in if dx \<noteq> 0 then safeWrite g4 y2 arrowX arrowChar
               else if dy \<noteq> 0 then safeWrite g4 arrowY x2 arrowChar
               else g4)
         else g4)"

text \<open>\<open>s.padStart(n)\<close> and \<open>s.padEnd(n)\<close> with the blank as padding.\<close>

definition padStart :: "nat \<Rightarrow> string \<Rightarrow> string" where
  "padStart n s = replicate (n - length s) CHR '' '' @ s"

definition padEnd :: "nat \<Rightarrow> string \<Rightarrow> string" where
  "padEnd n s = s @ replicate (n - length s) CHR '' ''"

definition drawNodeBox :: "grid \<Rightarrow> int \<Rightarrow> int \<Rightarrow> string \<Rightarrow> string \<Rightarrow> grid" where
  "drawNodeBox grid cx cy name icon =
     (let width = int (max (length name) (length icon)) + 4;
          halfWidth = width div 2;
          startX = max 0 (cx - halfWidth);
          startY = max 0 (cy - 1)
      in if startY \<ge> int (length grid)
            \<or> startX \<ge> int (case grid of [] \<Rightarrow> 0 | row # _ \<Rightarrow> length row)
         then grid
         else
           (let g1 = safeWrite grid startY startX TopLeft;
                g2 = fold (\<lambda>i g. safeWrite g startY (startX + i) HLine) [1 .. width - 2] g1;
                g3 = safeWrite g2 startY (startX + width - 1) TopRight;
                g4 = safeWrite g3 (startY + 1) startX VLine;
                paddedName =
                  padEnd (nat (width - 2))
                    (padStart (nat ((width - 2 + int (length name)) div 2)) name);
                g5 = fold (\<lambda>i g. safeWrite g (startY + 1) (startX + 1 + int i)
                                    (Ch (paddedName ! i)))
                       [0 ..< length paddedName] g4;
                g6 = safeWrite g5 (startY + 1) (startX + width - 1) VLine;
                g7 = safeWrite g6 (startY + 2) startX BottomLeft;
                g8 = fold (\<lambda>i g. safeWrite g (startY + 2) (startX + i) HLine)
                       [1 .. width - 2] g7
            in safeWrite g8 (startY + 2) (startX + width - 1) BottomRight))"

text \<open>
  The character grid of \<open>renderAscii\<close> for the normalised model, before it is
  framed: \<open>None\<close> where the fixed box of the empty diagram is printed instead.
  The connectors are drawn first, then the nodes.
\<close>

definition drawConnector :: "View \<Rightarrow> (Coords \<Rightarrow> int \<times> int) \<Rightarrow> Connector \<Rightarrow> grid \<Rightarrow> grid" where
  "drawConnector view toCharCoords connector grid =
     (if length (c_anchors connector) < 2 then grid
      else
        (let startAnchor = hd (c_anchors connector);
             endAnchor = last (c_anchors connector);
             startItem = find (\<lambda>vi. Some (vi_id vi) = ref_item (a_ref startAnchor)) (v_items view);
             endItem = find (\<lambda>vi. Some (vi_id vi) = ref_item (a_ref endAnchor)) (v_items view)
         in case (startItem, endItem) of
              (Some si, Some ei) \<Rightarrow>
                (let start = toCharCoords (vi_tile si);
                     end' = toCharCoords (vi_tile ei)
                 in drawLine grid (fst start) (snd start) (fst end') (snd end')
                      (c_showArrow connector \<noteq> Some False))
            | _ \<Rightarrow> grid))"

definition drawNode ::
  "(string \<rightharpoonup> ModelItem) \<Rightarrow> (Coords \<Rightarrow> int \<times> int) \<Rightarrow> ViewItem \<Rightarrow> grid \<Rightarrow> grid" where
  "drawNode itemLookup toCharCoords viewItem grid =
     (case itemLookup (vi_id viewItem) of
        None \<Rightarrow> grid
      | Some modelItem \<Rightarrow>
          (let c = toCharCoords (vi_tile viewItem);
               name = slice0 12 (mi_name modelItem);
               icon = (if truthy (mi_icon modelItem)
                       then slice0 10 (the (mi_icon modelItem)) else [])
           in drawNodeBox grid (fst c) (snd c) name icon))"

definition renderAsciiGrid :: "Model \<Rightarrow> grid option" where
  "renderAsciiGrid m =
     (case m_views m of
        [] \<Rightarrow> None
      | view # _ \<Rightarrow>
          (if length (v_items view) = 0 then None
           else
             (let itemLookup = map_of (rev (map (\<lambda>item. (mi_id item, item)) (m_items m)));
                  positions = map vi_tile (v_items view);
                  xs = map coord_x positions;
                  ys = map coord_y positions;
                  minX = fold min (tl xs) (hd xs);
                  maxX = fold max (tl xs) (hd xs);
                  minY = fold min (tl ys) (hd ys);
                  maxY = fold max (tl ys) (hd ys);
                  padding = 2;
                  gridMinX = minX - padding;
                  gridMaxX = maxX + padding;
                  gridMinY = minY - padding;
                  gridMaxY = maxY + padding;
                  cellWidth = 16;
                  cellHeight = 3;
                  gridWidth = (gridMaxX - gridMinX + 1) * cellWidth;
                  gridHeight = (gridMaxY - gridMinY + 1) * cellHeight;
                  grid = replicate (nat gridHeight) (replicate (nat gridWidth) (Ch CHR '' ''));
                  toCharCoords =
                    (\<lambda>tile. ((coord_x tile - gridMinX) * cellWidth + cellWidth div 2,
                             (coord_y tile - gridMinY) * cellHeight + cellHeight div 2));
                  connectors = (case v_connectors view of None \<Rightarrow> [] | Some cs \<Rightarrow> cs);
                  g1 = fold (drawConnector view toCharCoords) connectors grid;
                  g2 = fold (drawNode itemLookup toCharCoords) (v_items view) g1
              in Some g2)))"


section \<open>Notions used in the statements\<close>

text \<open>Reading a decimal numeral back, the inverse of \<open>string_of_nat\<close>.\<close>

definition nat_of_string :: "string \<Rightarrow> nat" where
  "nat_of_string s = foldl (\<lambda>acc c. 10 * acc + (of_char c - 48)) 0 s"

text \<open>
  Every connection of a compact diagram names two items of its \<open>i\<close> array:
  both indices are at least 0 and below the number of items.
\<close>

definition connectionsInRange :: "CompactDiagram \<Rightarrow> bool" where
  "connectionsInRange c =
     list_all (\<lambda>viewData.
        list_all (\<lambda>conn. 0 \<le> fst conn \<and> fst conn < int (length (cd_i c))
                       \<and> 0 \<le> snd conn \<and> snd conn < int (length (cd_i c)))
          (snd viewData))
       (cd_v c)"

text \<open>The compact diagram of the specification's example, and one whose only
  connection points at an item that does not exist.\<close>

definition exampleCompact :: CompactDiagram where
  "exampleCompact =
     \<lparr> cd_t = ''T'',
       cd_i = [(''A'', ''server'', []), (''B'', ''api'', [])],
       cd_v = [([(0, 0, 0), (1, 5, 0)], [(0, 1)])],
       cd_meta = \<lparr> meta_f = ''compact'', meta_v = ''1.0'' \<rparr> \<rparr>"

definition danglingCompact :: CompactDiagram where
  "danglingCompact =
     \<lparr> cd_t = ''T'',
       cd_i = [(''A'', [], [])],
       cd_v = [([], [(0, 5)])],
       cd_meta = \<lparr> meta_f = ''compact'', meta_v = ''1.0'' \<rparr> \<rparr>"

text \<open>\<open>view.connectors || []\<close>.\<close>

definition connectorsOf :: "View \<Rightarrow> Connector list" where
  "connectorsOf view = (case v_connectors view of None \<Rightarrow> [] | Some cs \<Rightarrow> cs)"

text \<open>
  A connector has an unmapped endpoint when the item identifier of its first or of
  its last anchor is not the identifier of any item of the model.
\<close>

definition hasUnmappedEndpoint :: "Model \<Rightarrow> Connector \<Rightarrow> bool" where
  "hasUnmappedEndpoint m c =
     (c_anchors c \<noteq> []
      \<and> ((case ref_item (a_ref (hd (c_anchors c))) of
             None \<Rightarrow> False | Some i \<Rightarrow> i \<notin> set (map mi_id (m_items m)))
         \<or> (case ref_item (a_ref (last (c_anchors c))) of
             None \<Rightarrow> False | Some i \<Rightarrow> i \<notin> set (map mi_id (m_items m)))))"

text \<open>
  A full model with two items, a placement of an item that does not exist, one
  connector between the two items and one to the missing item, a rectangle and a
  text box.
\<close>

definition exampleModel :: Model where
  "exampleModel =
     \<lparr> m_version = None, m_title = ''Shop'', m_description = None,
       m_items =
         [\<lparr> mi_id = ''a'', mi_name = ''Web'', mi_description = None, mi_icon = Some ''web'' \<rparr>,
          \<lparr> mi_id = ''b'', mi_name = ''Db'', mi_description = Some ''store'', mi_icon = None \<rparr>],
       m_views =
         [\<lparr> v_id = ''v1'', v_name = ''Main'', v_description = None, v_lastUpdated = None,
            v_items =
              [\<lparr> vi_id = ''b'', vi_tile = \<lparr> coord_x = 4, coord_y = 1 \<rparr>, vi_labelHeight = None \<rparr>,
               \<lparr> vi_id = ''ghost'', vi_tile = \<lparr> coord_x = 7, coord_y = 2 \<rparr>,
                 vi_labelHeight = None \<rparr>],
            v_connectors =
              Some [\<lparr> c_id = ''c1'', c_description = None, c_startLabel = None,
                      c_endLabel = None, c_startLabelHeight = None, c_centerLabelHeight = None,
                      c_endLabelHeight = None, c_labels = None, c_color = None,
                      c_customColor = None, c_width = None, c_style = Some DASHED,
                      c_lineType = None, c_showArrow = None,
                      c_anchors =
                        [\<lparr> a_id = ''p'', a_ref = \<lparr> ref_item = Some ''b'', ref_anchor = None,
                                                  ref_tile = None \<rparr> \<rparr>,
                         \<lparr> a_id = ''q'', a_ref = \<lparr> ref_item = Some ''a'', ref_anchor = None,
                                                  ref_tile = None \<rparr> \<rparr>] \<rparr>,
                    \<lparr> c_id = ''c2'', c_description = None, c_startLabel = None,
                      c_endLabel = None, c_startLabelHeight = None, c_centerLabelHeight = None,
                      c_endLabelHeight = None, c_labels = None, c_color = None,
                      c_customColor = None, c_width = None, c_style = None,
                      c_lineType = None, c_showArrow = None,
                      c_anchors =
                        [\<lparr> a_id = ''r'', a_ref = \<lparr> ref_item = Some ''a'', ref_anchor = None,
                                                  ref_tile = None \<rparr> \<rparr>,
                         \<lparr> a_id = ''s'', a_ref = \<lparr> ref_item = Some ''ghost'', ref_anchor = None,
                                                  ref_tile = None \<rparr> \<rparr>] \<rparr>],
            v_rectangles =
              Some [\<lparr> r_id = ''r1'', r_color = None, r_customColor = None,
                      r_from = \<lparr> coord_x = 0, coord_y = 0 \<rparr>,
                      r_to = \<lparr> coord_x = 3, coord_y = 3 \<rparr> \<rparr>],
            v_textBoxes =
              Some [\<lparr> tb_id = ''t1'', tb_tile = \<lparr> coord_x = 1, coord_y = 1 \<rparr>,
                      tb_content = ''note'', tb_fontSize = None, tb_orientation = None \<rparr>] \<rparr>],
       m_icons = [], m_colors = [] \<rparr>"


text \<open>
  The list without its first element that satisfies \<open>P\<close>; unchanged when there
  is none.
\<close>

fun deleteFirst :: "('a \<Rightarrow> bool) \<Rightarrow> 'a list \<Rightarrow> 'a list" where
  "deleteFirst P [] = []"
| "deleteFirst P (x # xs) = (if P x then xs else x # deleteFirst P xs)"

text \<open>
  A connector refers to a node when one of its anchors has that node as \<open>ref.item\<close>.
\<close>

definition connectorRefers :: "string \<Rightarrow> Connector \<Rightarrow> bool" where
  "connectorRefers nodeId c = (\<exists>a \<in> set (c_anchors c). ref_item (a_ref a) = Some nodeId)"

text \<open>
  The view identifier a mutation works with when the state has a view: the given
  one when it is a non-empty string, the identifier of the primary view otherwise.
\<close>

definition targetViewIdOf :: "string option \<Rightarrow> DiagramState \<Rightarrow> string" where
  "targetViewIdOf viewId S =
     (if truthy viewId then the viewId else v_id (hd (m_views (model S))))"

text \<open>
  Example data: two identifier sources, the parameters of three calls, and the
  states they lead to from the empty diagram.
\<close>

definition uuidA :: uuidv4 where
  "uuidA site =
     (case site of
        NodeId \<Rightarrow> ''n1'' | ConnectorId \<Rightarrow> ''k1'' | FromAnchorId \<Rightarrow> ''a1''
      | ToAnchorId \<Rightarrow> ''a2'' | DefaultViewId \<Rightarrow> ''v1'' | FullAnchorId _ _ _ \<Rightarrow> ''a0'')"

definition uuidB :: uuidv4 where
  "uuidB site =
     (case site of
        NodeId \<Rightarrow> ''n2'' | ConnectorId \<Rightarrow> ''k2'' | FromAnchorId \<Rightarrow> ''a3''
      | ToAnchorId \<Rightarrow> ''a4'' | DefaultViewId \<Rightarrow> ''v2'' | FullAnchorId _ _ _ \<Rightarrow> ''a0'')"

definition node1 :: addNode_params where
  "node1 = \<lparr> an_name = ''Node 1'', an_icon = None, an_description = None,
             an_x = 0, an_y = 0, an_labelHeight = None, an_viewId = None \<rparr>"

definition node2 :: addNode_params where
  "node2 = \<lparr> an_name = ''Node 2'', an_icon = None, an_description = None,
             an_x = 5, an_y = 0, an_labelHeight = None, an_viewId = None \<rparr>"

definition link12 :: addConnector_params where
  "link12 = \<lparr> ac_fromNodeId = ''n1'', ac_toNodeId = ''n2'', ac_style = None,
              ac_lineType = None, ac_color = None, ac_showArrow = None, ac_label = None,
              ac_viewId = None \<rparr>"

definition emptyState :: DiagramState where
  "emptyState = new_DiagramState uuidA None"

definition mainView :: "ViewItem list \<Rightarrow> Connector list \<Rightarrow> View" where
  "mainView vis cs =
     \<lparr> v_id = ''v1'', v_name = ''Main View'', v_description = None, v_lastUpdated = None,
       v_items = vis, v_connectors = Some cs, v_rectangles = Some [], v_textBoxes = Some [] \<rparr>"

definition stateOf :: "ModelItem list \<Rightarrow> ViewItem list \<Rightarrow> Connector list \<Rightarrow> DiagramState" where
  "stateOf its vis cs =
     \<lparr> model = INITIAL_MODEL \<lparr> m_items := its, m_views := [mainView vis cs] \<rparr>,
       scene = INITIAL_SCENE \<rparr>"

definition item1 :: ModelItem where
  "item1 = \<lparr> mi_id = ''n1'', mi_name = ''Node 1'', mi_description = None, mi_icon = None \<rparr>"

definition item2 :: ModelItem where
  "item2 = \<lparr> mi_id = ''n2'', mi_name = ''Node 2'', mi_description = None, mi_icon = None \<rparr>"

definition place1 :: ViewItem where
  "place1 = \<lparr> vi_id = ''n1'', vi_tile = \<lparr> coord_x = 0, coord_y = 0 \<rparr>,
              vi_labelHeight = Some 80 \<rparr>"

definition place2 :: ViewItem where
  "place2 = \<lparr> vi_id = ''n2'', vi_tile = \<lparr> coord_x = 5, coord_y = 0 \<rparr>,
              vi_labelHeight = Some 80 \<rparr>"

definition twoNodes :: DiagramState where
  "twoNodes = stateOf [item1, item2] [place1, place2] []"

definition connected :: DiagramState where
  "connected = stateOf [item1, item2] [place1, place2] [newConnector uuidA ''k1'' link12]"


text \<open>
  A connector to a node that is not placed, a node for a view that does not exist,
  and a node with the empty string as view identifier.
\<close>

definition linkGhost :: addConnector_params where
  "linkGhost = \<lparr> ac_fromNodeId = ''n1'', ac_toNodeId = ''ghost'', ac_style = None,
                 ac_lineType = None, ac_color = None, ac_showArrow = None, ac_label = None,
                 ac_viewId = None \<rparr>"

definition nodeNowhere :: addNode_params where
  "nodeNowhere = \<lparr> an_name = ''Node 2'', an_icon = None, an_description = None,
                   an_x = 5, an_y = 0, an_labelHeight = None, an_viewId = Some ''nowhere'' \<rparr>"

definition nodeEmptyViewId :: addNode_params where
  "nodeEmptyViewId = \<lparr> an_name = ''Node 2'', an_icon = None, an_description = None,
                       an_x = 5, an_y = 0, an_labelHeight = None, an_viewId = Some [] \<rparr>"





text \<open>
  Two nodes side by side joined by a connector with an arrow, as in the renderer's
  test of arrow indicators.
\<close>

definition arrowsModel :: Model where
  "arrowsModel =
     \<lparr> m_version = None, m_title = ''Arrows'', m_description = None,
       m_items =
         [\<lparr> mi_id = ''node-1'', mi_name = ''Source'', mi_description = None, mi_icon = None \<rparr>,
          \<lparr> mi_id = ''node-2'', mi_name = ''Target'', mi_description = None, mi_icon = None \<rparr>],
       m_views =
         [\<lparr> v_id = ''view-1'', v_name = ''Main'', v_description = None, v_lastUpdated = None,
            v_items =
              [\<lparr> vi_id = ''node-1'', vi_tile = \<lparr> coord_x = 0, coord_y = 0 \<rparr>,
                 vi_labelHeight = None \<rparr>,
               \<lparr> vi_id = ''node-2'', vi_tile = \<lparr> coord_x = 1, coord_y = 0 \<rparr>,
                 vi_labelHeight = None \<rparr>],
            v_connectors =
              Some [\<lparr> c_id = ''conn-1'', c_description = None, c_startLabel = None,
                      c_endLabel = None, c_startLabelHeight = None, c_centerLabelHeight = None,
                      c_endLabelHeight = None, c_labels = None, c_color = None,
                      c_customColor = None, c_width = None, c_style = None,
                      c_lineType = None, c_showArrow = Some True,
                      c_anchors =
                        [\<lparr> a_id = [], a_ref = \<lparr> ref_item = Some ''node-1'',
                                               ref_anchor = Some ''RIGHT'', ref_tile = None \<rparr> \<rparr>,
                         \<lparr> a_id = [], a_ref = \<lparr> ref_item = Some ''node-2'',
                                               ref_anchor = Some ''LEFT'', ref_tile = None \<rparr> \<rparr>] \<rparr>],
            v_rectangles = Some [], v_textBoxes = Some [] \<rparr>],
       m_icons = [], m_colors = [] \<rparr>"

text \<open>
  The cells \<open>safeWrite\<close> writes over: the blank and the two straight segments.
\<close>

definition overwritable :: "cell \<Rightarrow> bool" where
  "overwritable c \<longleftrightarrow> c = Ch CHR '' '' \<or> c = HLine \<or> c = VLine"

text \<open>
  \<open>keepsContent g g'\<close>: \<open>g'\<close> has the shape of \<open>g\<close>, and every cell of \<open>g\<close> that is not
  overwritable holds the same character in \<open>g'\<close>.
\<close>

definition keepsContent :: "grid \<Rightarrow> grid \<Rightarrow> bool" where
  "keepsContent g g' \<longleftrightarrow>
     length g' = length g
     \<and> (\<forall>r < length g.
           length (g' ! r) = length (g ! r)
           \<and> (\<forall>c < length (g ! r). \<not> overwritable (g ! r ! c) \<longrightarrow> g' ! r ! c = g ! r ! c))"

text \<open>
  A node and, one tile to the right and one below, a node with a name of twelve
  characters, joined by a connector.
\<close>

definition diagonalModel :: Model where
  "diagonalModel =
     \<lparr> m_version = None, m_title = ''Diagonal'', m_description = None,
       m_items =
         [\<lparr> mi_id = ''node-1'', mi_name = ''Alpha'', mi_description = None, mi_icon = None \<rparr>,
          \<lparr> mi_id = ''node-2'', mi_name = ''Orchestrator'', mi_description = None,
            mi_icon = None \<rparr>],
       m_views =
         [\<lparr> v_id = ''view-1'', v_name = ''Main'', v_description = None, v_lastUpdated = None,
            v_items =
              [\<lparr> vi_id = ''node-1'', vi_tile = \<lparr> coord_x = 0, coord_y = 0 \<rparr>,
                 vi_labelHeight = None \<rparr>,
               \<lparr> vi_id = ''node-2'', vi_tile = \<lparr> coord_x = 1, coord_y = 1 \<rparr>,
                 vi_labelHeight = None \<rparr>],
            v_connectors =
              Some [\<lparr> c_id = ''conn-1'', c_description = None, c_startLabel = None,
                      c_endLabel = None, c_startLabelHeight = None, c_centerLabelHeight = None,
                      c_endLabelHeight = None, c_labels = None, c_color = None,
                      c_customColor = None, c_width = None, c_style = None,
                      c_lineType = None, c_showArrow = None,
                      c_anchors =
                        [\<lparr> a_id = [], a_ref = \<lparr> ref_item = Some ''node-1'',
                                               ref_anchor = None, ref_tile = None \<rparr> \<rparr>,
                         \<lparr> a_id = [], a_ref = \<lparr> ref_item = Some ''node-2'',
                                               ref_anchor = None, ref_tile = None \<rparr> \<rparr>] \<rparr>],
            v_rectangles = Some [], v_textBoxes = Some [] \<rparr>],
       m_icons = [], m_colors = [] \<rparr>"

text \<open>
  The grids of \<open>arrowsModel\<close> and of \<open>diagonalModel\<close> after the connector pass: the
  blank grid of the model's size with the one line drawn between the cell centres
  of the two nodes.
\<close>

definition lineGrid :: grid where
  "lineGrid = drawLine (replicate 15 (replicate 96 (Ch CHR '' ''))) 40 7 56 7 True"

definition diagonalLineGrid :: grid where
  "diagonalLineGrid = drawLine (replicate 18 (replicate 96 (Ch CHR '' ''))) 40 7 56 10 True"

section \<open>The compact round trip\<close>

lemma nat_of_string_snoc: "nat_of_string (s @ [c]) = 10 * nat_of_string s + (of_char c - 48)"
  by (simp add: nat_of_string_def)

lemma nat_of_string_of_nat: "nat_of_string (string_of_nat n) = n"
proof (induction n rule: string_of_nat.induct)
  case (1 n)
  show ?case
  proof (cases "n < 10")
    case True
    then show ?thesis
      by (subst string_of_nat.simps) (simp add: nat_of_string_def)
  next
    case False
    then have "nat_of_string (string_of_nat (n div 10)) = n div 10"
      using 1 by simp
    with False show ?thesis
      by (subst string_of_nat.simps) (simp add: nat_of_string_snoc)
  qed
qed

lemma string_of_nat_inj: "string_of_nat a = string_of_nat b \<Longrightarrow> a = b"
  by (metis nat_of_string_of_nat)

lemma itemId_nat_inj: "itemId (int a) = itemId (int b) \<Longrightarrow> a = b"
  by (simp add: itemId_def string_of_int_def string_of_nat_inj)

lemma itemId_truthy: "truthy (Some (itemId k))"
  by (simp add: truthy_def itemId_def)

lemma map_enumerate_snd: "map (\<lambda>(k, x). f x) (enumerate n xs) = map f xs"
  by (induction xs arbitrary: n) simp_all

lemma itemIndexMap_snoc:
  "itemIndexMap (xs @ [x]) = (itemIndexMap xs)(mi_id x \<mapsto> length xs)"
  by (simp add: itemIndexMap_def enumerate_append_eq)

lemma itemIndexMap_Nil: "itemIndexMap [] = Map.empty"
  by (simp add: itemIndexMap_def)

lemma itemIndexMap_None_iff: "itemIndexMap xs key = None \<longleftrightarrow> key \<notin> mi_id ` set xs"
  by (induction xs rule: rev_induct) (simp_all add: itemIndexMap_snoc itemIndexMap_Nil)

lemma itemIndexMap_distinct:
  "distinct (map mi_id xs) \<Longrightarrow> k < length xs \<Longrightarrow> itemIndexMap xs (mi_id (xs ! k)) = Some k"
proof (induction xs arbitrary: k rule: rev_induct)
  case Nil
  then show ?case by simp
next
  case (snoc x xs)
  show ?case
  proof (cases "k < length xs")
    case True
    then have "mi_id (xs ! k) \<in> set (map mi_id xs)" by simp
    moreover from snoc.prems have "mi_id x \<notin> set (map mi_id xs)" by simp
    ultimately have "mi_id (xs ! k) \<noteq> mi_id x" by metis
    with True snoc.IH [of k] snoc.prems show ?thesis
      by (simp add: itemIndexMap_snoc nth_append)
  next
    case False
    with snoc.prems have "k = length xs" by simp
    then show ?thesis by (simp add: itemIndexMap_snoc)
  qed
qed

lemma toFull_item_ids:
  "map mi_id (map (\<lambda>(index, item). toFullItem index item) (enumerate n xs))
     = map (\<lambda>k. itemId (int k)) [n ..< n + length xs]"
proof (induction xs arbitrary: n)
  case Nil
  then show ?case by simp
next
  case (Cons a xs)
  have "[n ..< n + length (a # xs)] = n # [Suc n ..< Suc n + length xs]"
    by (simp add: upt_rec)
  then show ?case
    using Cons [of "Suc n"] by (simp add: toFullItem_def split: prod.splits)
qed

lemma toFull_items_distinct: "distinct (map mi_id (m_items (toFull u c)))"
proof -
  have "inj_on (\<lambda>k. itemId (int k)) (set [0 ..< 0 + length (cd_i c)])"
    by (rule inj_onI) (rule itemId_nat_inj)
  then have "distinct (map (\<lambda>k. itemId (int k)) [0 ..< 0 + length (cd_i c)])"
    by (simp add: distinct_map)
  then have "distinct (map mi_id (map (\<lambda>(index, item). toFullItem index item)
                (enumerate 0 (cd_i c))))"
    by (simp only: toFull_item_ids)
  then show ?thesis
    by (simp add: toFull_def)
qed

lemma toFull_items_length: "length (m_items (toFull u c)) = length (cd_i c)"
  by (simp add: toFull_def)

lemma toFull_item_id_nth:
  assumes "k < length (cd_i c)"
  shows "mi_id (m_items (toFull u c) ! k) = itemId (int k)"
proof -
  have "mi_id (m_items (toFull u c) ! k) = map mi_id (m_items (toFull u c)) ! k"
    using assms by (simp add: toFull_items_length)
  also have "\<dots> = itemId (int k)"
    using assms by (simp add: toFull_def toFull_item_ids del: map_map)
  finally show ?thesis .
qed

lemma itemIndexMap_toFull:
  assumes "k < length (cd_i c)"
  shows "itemIndexMap (m_items (toFull u c)) (itemId (int k)) = Some k"
  using itemIndexMap_distinct [OF toFull_items_distinct, of k u c] assms
  by (simp add: toFull_items_length toFull_item_id_nth)


lemma toCompactConnection_toFullConnector:
  assumes "0 \<le> a" "a < int (length (cd_i c))" "0 \<le> b" "b < int (length (cd_i c))"
  shows "toCompactConnection (itemIndexMap (m_items (toFull u c)))
           (toFullConnector u' viewIndex connIndex (a, b)) = Some (a, b)"
proof -
  have a: "itemIndexMap (m_items (toFull u c)) (itemId a) = Some (nat a)"
    using itemIndexMap_toFull [of "nat a" c u] assms by simp
  have b: "itemIndexMap (m_items (toFull u c)) (itemId b) = Some (nat b)"
    using itemIndexMap_toFull [of "nat b" c u] assms by simp
  show ?thesis
    using assms a b
    by (simp add: toCompactConnection_def toFullConnector_def itemId_truthy)
qed

lemma map_filter_toFullConnector:
  assumes "\<forall>conn \<in> set conns. 0 \<le> fst conn \<and> fst conn < int (length (cd_i c))
             \<and> 0 \<le> snd conn \<and> snd conn < int (length (cd_i c))"
  shows "List.map_filter (toCompactConnection (itemIndexMap (m_items (toFull u c))))
           (map (\<lambda>(connIndex, conn). toFullConnector u' viewIndex connIndex conn)
              (enumerate n conns)) = conns"
  using assms
proof (induction conns arbitrary: n)
  case Nil
  then show ?case by (simp add: List.map_filter_simps)
next
  case (Cons conn conns)
  obtain a b where ab: "conn = (a, b)" by (cases conn)
  with Cons.prems have "toCompactConnection (itemIndexMap (m_items (toFull u c)))
           (toFullConnector u' viewIndex n (a, b)) = Some (a, b)"
    by (intro toCompactConnection_toFullConnector) simp_all
  with Cons ab show ?case
    by (simp add: List.map_filter_simps)
qed

lemma toCompact_toFull_view_connections:
  assumes "\<forall>conn \<in> set (snd viewData). 0 \<le> fst conn \<and> fst conn < int (length (cd_i c))
             \<and> 0 \<le> snd conn \<and> snd conn < int (length (cd_i c))"
  shows "snd (toCompactView (itemIndexMap (m_items (toFull u c)))
                (toFullView u' viewIndex viewData)) = snd viewData"
  using map_filter_toFullConnector [OF assms]
  by (cases viewData) (simp add: toCompactView_def toFullView_def)

lemma validateCompact_item_bounds:
  assumes "fst (validateCompact c)" "item \<in> set (cd_i c)"
  shows "length (fst item) \<le> 30 \<and> length (snd (snd item)) \<le> 100"
proof -
  from assms(2) obtain k where k: "k < length (cd_i c)" "cd_i c ! k = item"
    by (auto simp: in_set_conv_nth)
  then have "(k, item) \<in> set (enumerate 0 (cd_i c))"
    by (auto simp: in_set_enumerate_eq)
  moreover from assms(1) have "\<forall>p \<in> set (enumerate 0 (cd_i c)).
      (case p of (index, item) \<Rightarrow> validateCompactItem index item) = []"
    by (simp add: validateCompact_def Let_def)
  ultimately have "validateCompactItem k item = []" by fastforce
  then show ?thesis
    by (cases item) (simp add: validateCompactItem_def split: if_splits)
qed

lemma validateCompact_title: "fst (validateCompact c) \<Longrightarrow> length (cd_t c) \<le> 40"
  by (simp add: validateCompact_def Let_def split: if_splits)

lemma toCompactItem_toFullItem:
  assumes "length (fst item) \<le> 30" "length (snd (snd item)) \<le> 100"
  shows "toCompactItem (toFullItem index item) = item"
  using assms
  by (cases item)
     (simp add: toCompactItem_def toFullItem_def slice0_def orEmpty_def orUndefined_def)

lemma toCompact_toFull_items:
  assumes "fst (validateCompact c)"
  shows "cd_i (toCompact (toFull u c)) = cd_i c"
proof -
  have "map (\<lambda>(index, item). toCompactItem (toFullItem index item)) (enumerate n xs) = xs"
    if "\<forall>item \<in> set xs. length (fst item) \<le> 30 \<and> length (snd (snd item)) \<le> 100"
    for n and xs :: "(string \<times> string \<times> string) list"
    using that by (induction xs arbitrary: n) (simp_all add: toCompactItem_toFullItem)
  from this [of "cd_i c" 0] validateCompact_item_bounds [OF assms]
  show ?thesis
    by (simp add: toCompact_def toFull_def Let_def case_prod_unfold comp_def)
qed

lemma toFull_views_length: "length (m_views (toFull u c)) = length (cd_v c)"
  by (simp add: toFull_def)


text \<open>
  C1, as the code has it. For every compact diagram \<open>c\<close> that \<open>validateCompact\<close>
  accepts and whose connections all name existing items (indices from 0 up to, but
  not including, the number of items), \<open>toCompact (toFull c)\<close> has the title
  \<open>c.t.slice(0,40)\<close>, an \<open>i\<close> array of the same length as and equal to \<open>c.i\<close>, and in
  every view of \<open>c\<close> the same connection pairs in the same order.
\<close>

theorem toCompact_toFull_roundtrip:
  assumes "fst (validateCompact c)" and "connectionsInRange c"
  shows "cd_t (toCompact (toFull u c)) = slice0 40 (cd_t c)
       \<and> length (cd_i (toCompact (toFull u c))) = length (cd_i c)
       \<and> cd_i (toCompact (toFull u c)) = cd_i c
       \<and> (\<forall>k < length (cd_v c).
             snd (cd_v (toCompact (toFull u c)) ! k) = snd (cd_v c ! k))"
proof -
  have t: "cd_t (toCompact (toFull u c)) = slice0 40 (cd_t c)"
    by (simp add: toCompact_def toFull_def Let_def)
  have i: "cd_i (toCompact (toFull u c)) = cd_i c"
    by (rule toCompact_toFull_items [OF assms(1)])
  have v: "snd (cd_v (toCompact (toFull u c)) ! k) = snd (cd_v c ! k)"
    if k: "k < length (cd_v c)" for k
  proof -
    from k have ne: "m_views (toFull u c) \<noteq> []"
      using toFull_views_length [of u c] by auto
    have "cd_v (toCompact (toFull u c)) ! k =
            toCompactView (itemIndexMap (m_items (toFull u c))) (m_views (toFull u c) ! k)"
      using k ne by (simp add: toCompact_def Let_def toFull_views_length)
    also have "m_views (toFull u c) ! k = toFullView u k (cd_v c ! k)"
      using k by (simp add: toFull_def nth_enumerate_eq)
    finally have "cd_v (toCompact (toFull u c)) ! k =
            toCompactView (itemIndexMap (m_items (toFull u c))) (toFullView u k (cd_v c ! k))" .
    moreover from k have "cd_v c ! k \<in> set (cd_v c)" by simp
    with assms(2) have
      "\<forall>conn \<in> set (snd (cd_v c ! k)). 0 \<le> fst conn \<and> fst conn < int (length (cd_i c))
             \<and> 0 \<le> snd conn \<and> snd conn < int (length (cd_i c))"
      unfolding connectionsInRange_def list_all_iff by blast
    ultimately show ?thesis
      by (simp add: toCompact_toFull_view_connections)
  qed
  from t i v show ?thesis by simp
qed

theorem toCompact_toFull_roundtrip_witness:
  "fst (validateCompact exampleCompact) \<and> connectionsInRange exampleCompact
   \<and> cd_t (toCompact (toFull (\<lambda>_. ''u'') exampleCompact)) = ''T''
   \<and> cd_i (toCompact (toFull (\<lambda>_. ''u'') exampleCompact)) = cd_i exampleCompact
   \<and> snd (cd_v (toCompact (toFull (\<lambda>_. ''u'') exampleCompact)) ! 0) = [(0, 1)]"
proof -
  have v: "fst (validateCompact exampleCompact)"
    by (simp add: exampleCompact_def validateCompact_def validateCompactItem_def)
  have r: "connectionsInRange exampleCompact"
    by (simp add: exampleCompact_def connectionsInRange_def)
  have "length (cd_v exampleCompact) = 1" "cd_t exampleCompact = ''T''"
       "snd (cd_v exampleCompact ! 0) = [(0, 1)]"
    by (simp_all add: exampleCompact_def)
  with v r toCompact_toFull_roundtrip [OF v r, of "\<lambda>_. ''u''"] show ?thesis
    by (simp add: slice0_def)
qed

text \<open>
  Without the condition on the indices the connections are not preserved:
  \<open>validateCompact\<close> does not look at them, and a connection to a missing item is
  dropped on the way back.
\<close>

theorem toCompact_toFull_roundtrip_counterexample:
  "fst (validateCompact danglingCompact)
   \<and> snd (cd_v (toCompact (toFull (\<lambda>_. ''u'') danglingCompact)) ! 0)
       \<noteq> snd (cd_v danglingCompact ! 0)"
  by (simp add: danglingCompact_def validateCompact_def validateCompactItem_def toCompact_def
      toFull_def Let_def toFullView_def toFullConnector_def toCompactView_def
      toCompactConnection_def itemIndexMap_def toFullItem_def itemId_def string_of_int_def
      string_of_nat.simps truthy_def List.map_filter_simps)

section \<open>From full to compact\<close>

lemma toFull_views_sections:
  "view \<in> set (m_views (toFull u c)) \<Longrightarrow> v_rectangles view = Some [] \<and> v_textBoxes view = Some []"
  by (auto simp: toFull_def toFullView_def Let_def split: prod.splits)

lemma toCompact_items_length: "length (cd_i (toCompact m)) = length (m_items m)"
  by (simp add: toCompact_def Let_def)

text \<open>
  C5. For every full model \<open>m\<close>, \<open>toFull (toCompact m)\<close> is defined (neither function
  has a failing step on a typed model), its items array has the length of \<open>m.items\<close>,
  and in every one of its views the rectangles and the text boxes are empty arrays.
\<close>

theorem toFull_toCompact_shape:
  "length (m_items (toFull u (toCompact m))) = length (m_items m)
   \<and> (\<forall>view \<in> set (m_views (toFull u (toCompact m))).
         v_rectangles view = Some [] \<and> v_textBoxes view = Some [])"
  using toFull_views_sections [of _ u "toCompact m"]
  by (simp add: toFull_items_length toCompact_items_length)

lemma toCompact_view_nth:
  "k < length (m_views m) \<Longrightarrow>
   cd_v (toCompact m) ! k = toCompactView (itemIndexMap (m_items m)) (m_views m ! k)"
  by (auto simp: toCompact_def Let_def)

lemma toCompactPosition_unmapped:
  "vi_id vi \<notin> mi_id ` set items \<Longrightarrow>
   toCompactPosition (itemIndexMap items) vi = (0, coord_x (vi_tile vi), coord_y (vi_tile vi))"
  by (simp add: toCompactPosition_def itemIndexMap_None_iff [THEN iffD2])

lemma toCompactConnection_unmapped:
  assumes "hasUnmappedEndpoint m c"
  shows "toCompactConnection (itemIndexMap (m_items m)) c = None"
proof (cases "length (c_anchors c) < 2 \<or> \<not> truthy (ref_item (a_ref (hd (c_anchors c))))
                \<or> \<not> truthy (ref_item (a_ref (last (c_anchors c))))")
  case True
  then show ?thesis by (auto simp: toCompactConnection_def Let_def)
next
  case False
  then obtain i j where ij: "ref_item (a_ref (hd (c_anchors c))) = Some i"
      "ref_item (a_ref (last (c_anchors c))) = Some j"
    by (auto simp: truthy_def split: option.splits)
  with assms have "i \<notin> mi_id ` set (m_items m) \<or> j \<notin> mi_id ` set (m_items m)"
    by (auto simp: hasUnmappedEndpoint_def)
  then have "itemIndexMap (m_items m) i = None \<or> itemIndexMap (m_items m) j = None"
    by (auto simp: itemIndexMap_None_iff)
  with ij False show ?thesis
    by (auto simp: toCompactConnection_def Let_def split: option.splits)
qed

lemma map_filter_drop:
  assumes "\<And>x. \<not> P x \<Longrightarrow> f x = None"
  shows "List.map_filter f (filter P xs) = List.map_filter f xs"
  using assms by (induction xs) (auto simp: List.map_filter_simps split: option.splits)

text \<open>
  C9. In every view of a model, \<open>toCompact\<close> keeps one position triple per view item,
  and a view item whose identifier is not the identifier of any model item is encoded
  with item index 0 and its own tile; the connections of the view are those of its
  connectors without an unmapped endpoint: every connector with an unmapped endpoint
  is dropped.
\<close>

theorem toCompact_unmapped:
  assumes "k < length (m_views m)"
  shows "length (fst (cd_v (toCompact m) ! k)) = length (v_items (m_views m ! k))
   \<and> (\<forall>j < length (v_items (m_views m ! k)).
        vi_id (v_items (m_views m ! k) ! j) \<notin> set (map mi_id (m_items m)) \<longrightarrow>
        fst (cd_v (toCompact m) ! k) ! j =
          (0, coord_x (vi_tile (v_items (m_views m ! k) ! j)),
              coord_y (vi_tile (v_items (m_views m ! k) ! j))))
   \<and> snd (cd_v (toCompact m) ! k) =
       List.map_filter (toCompactConnection (itemIndexMap (m_items m)))
         (filter (\<lambda>c. \<not> hasUnmappedEndpoint m c) (connectorsOf (m_views m ! k)))
   \<and> (\<forall>c. hasUnmappedEndpoint m c \<longrightarrow>
          toCompactConnection (itemIndexMap (m_items m)) c = None)"
proof -
  let ?mp = "itemIndexMap (m_items m)" and ?view = "m_views m ! k"
  have v: "cd_v (toCompact m) ! k = toCompactView ?mp ?view"
    by (rule toCompact_view_nth [OF assms])
  have len: "length (fst (cd_v (toCompact m) ! k)) = length (v_items ?view)"
    by (simp add: v toCompactView_def)
  have pos: "fst (cd_v (toCompact m) ! k) ! j =
          (0, coord_x (vi_tile (v_items ?view ! j)), coord_y (vi_tile (v_items ?view ! j)))"
    if "j < length (v_items ?view)" "vi_id (v_items ?view ! j) \<notin> set (map mi_id (m_items m))"
    for j
    using that by (simp add: v toCompactView_def toCompactPosition_unmapped)
  have conn: "snd (cd_v (toCompact m) ! k) =
       List.map_filter (toCompactConnection ?mp)
         (filter (\<lambda>c. \<not> hasUnmappedEndpoint m c) (connectorsOf ?view))"
    using map_filter_drop [of "\<lambda>c. \<not> hasUnmappedEndpoint m c" "toCompactConnection ?mp"
        "connectorsOf ?view"] toCompactConnection_unmapped [of m]
    by (simp add: v toCompactView_def connectorsOf_def)
  from len pos conn toCompactConnection_unmapped [of m] show ?thesis by blast
qed


theorem toFull_toCompact_shape_witness:
  "length (m_items (toFull (\<lambda>_. ''u'') (toCompact exampleModel))) = 2
   \<and> length (m_views (toFull (\<lambda>_. ''u'') (toCompact exampleModel))) = 1
   \<and> v_rectangles (m_views (toFull (\<lambda>_. ''u'') (toCompact exampleModel)) ! 0) = Some []
   \<and> v_textBoxes (m_views (toFull (\<lambda>_. ''u'') (toCompact exampleModel)) ! 0) = Some []
   \<and> v_rectangles (m_views exampleModel ! 0) \<noteq> Some []"
proof -
  let ?r = "toFull (\<lambda>_. ''u'') (toCompact exampleModel)"
  have n: "length (m_views ?r) = 1"
    by (simp add: toFull_views_length) (simp add: toCompact_def exampleModel_def)
  then have "m_views ?r ! 0 \<in> set (m_views ?r)"
    by (simp del: One_nat_def)
  with n toFull_toCompact_shape [of "\<lambda>_. ''u''" exampleModel] show ?thesis
    by (simp add: exampleModel_def)
qed

theorem toCompact_unmapped_witness:
  "0 < length (m_views exampleModel)
   \<and> vi_id (v_items (m_views exampleModel ! 0) ! 1) \<notin> set (map mi_id (m_items exampleModel))
   \<and> fst (cd_v (toCompact exampleModel) ! 0) = [(1, 4, 1), (0, 7, 2)]
   \<and> hasUnmappedEndpoint exampleModel (connectorsOf (m_views exampleModel ! 0) ! 1)
   \<and> snd (cd_v (toCompact exampleModel) ! 0) = [(1, 0)]"
proof -
  have k: "0 < length (m_views exampleModel)"
    by (simp add: exampleModel_def)
  have g: "vi_id (v_items (m_views exampleModel ! 0) ! 1)
             \<notin> set (map mi_id (m_items exampleModel))"
    by (simp add: exampleModel_def)
  have h: "hasUnmappedEndpoint exampleModel (connectorsOf (m_views exampleModel ! 0) ! 1)"
    by (simp add: exampleModel_def hasUnmappedEndpoint_def connectorsOf_def)
  have p: "fst (cd_v (toCompact exampleModel) ! 0) = [(1, 4, 1), (0, 7, 2)]"
    by (simp add: exampleModel_def toCompact_def toCompactView_def toCompactPosition_def
        itemIndexMap_def Let_def)
  have f: "filter (\<lambda>c. \<not> hasUnmappedEndpoint exampleModel c)
             (connectorsOf (m_views exampleModel ! 0))
           = [connectorsOf (m_views exampleModel ! 0) ! 0]"
    by (simp add: exampleModel_def hasUnmappedEndpoint_def connectorsOf_def)
  have c: "toCompactConnection (itemIndexMap (m_items exampleModel))
             (connectorsOf (m_views exampleModel ! 0) ! 0) = Some (1, 0)"
    by (simp add: exampleModel_def connectorsOf_def toCompactConnection_def itemIndexMap_def
        truthy_def)
  from toCompact_unmapped [OF k] have
    "snd (cd_v (toCompact exampleModel) ! 0) =
       List.map_filter (toCompactConnection (itemIndexMap (m_items exampleModel)))
         (filter (\<lambda>c. \<not> hasUnmappedEndpoint exampleModel c)
            (connectorsOf (m_views exampleModel ! 0)))"
    by blast
  with f c have "snd (cd_v (toCompact exampleModel) ! 0) = [(1, 0)]"
    by (simp add: List.map_filter_simps)
  with k g h p show ?thesis by blast
qed


section \<open>Diagram state operations\<close>

lemma findIndex_None_iff: "findIndex P xs = None \<longleftrightarrow> (\<forall>x \<in> set xs. \<not> P x)"
  by (induction xs) auto

lemma findIndex_Some:
  "findIndex P xs = Some k \<Longrightarrow> k < length xs \<and> P (xs ! k) \<and> (\<forall>j < k. \<not> P (xs ! j))"
proof (induction xs arbitrary: k)
  case Nil
  then show ?case by simp
next
  case (Cons x xs)
  show ?case
  proof (cases "P x")
    case True
    with Cons.prems show ?thesis by simp
  next
    case False
    with Cons.prems have "map_option Suc (findIndex P xs) = Some k" by simp
    then obtain k' where k': "findIndex P xs = Some k'" "k = Suc k'"
      by (cases "findIndex P xs") simp_all
    from Cons.IH [OF k'(1)]
    have ih: "k' < length xs" "P (xs ! k')" "\<forall>j < k'. \<not> P (xs ! j)"
      by simp_all
    have "\<not> P ((x # xs) ! j)" if "j < k" for j
    proof (cases j)
      case 0
      with False show ?thesis by simp
    next
      case (Suc j')
      with that k'(2) ih(3) show ?thesis by simp
    qed
    with ih k'(2) show ?thesis by simp
  qed
qed

lemma deleteFirst_findIndex:
  "deleteFirst P xs = (case findIndex P xs of None \<Rightarrow> xs | Some k \<Rightarrow> splice1 k xs)"
  by (induction xs) (simp_all add: splice1_def split: option.splits)

lemmas splice_findIndex = deleteFirst_findIndex [symmetric]



lemma deleteFirst_subset: "set (deleteFirst P xs) \<subseteq> set xs"
  by (induction xs) auto


lemma new_DiagramState_Full:
  "m_views m \<noteq> [] \<Longrightarrow>
   new_DiagramState u (Some (Full m)) = \<lparr> model = m, scene = INITIAL_SCENE \<rparr>"
  by (simp add: new_DiagramState_def normalize_def)

lemma new_DiagramState_views: "m_views (model (new_DiagramState u d)) \<noteq> []"
  by (cases d) (simp_all add: new_DiagramState_def Let_def)

lemma mutateFoundView_length [simp]: "length (mutateFoundView P f views) = length views"
  by (simp add: mutateFoundView_def split: option.splits)

lemma mutateFoundView_Nil_iff [simp]: "mutateFoundView P f views = [] \<longleftrightarrow> views = []"
  by (simp add: mutateFoundView_def split: option.splits)

lemma mutateFoundView_nth:
  "k < length views \<Longrightarrow>
   mutateFoundView P f views ! k =
     (if findIndex P views = Some k then f (views ! k) else views ! k)"
  by (auto simp: mutateFoundView_def split: option.splits)

lemma viewIdOrPrimary_target:
  "m_views (model S) \<noteq> [] \<Longrightarrow> viewIdOrPrimary viewId S = Inr (targetViewIdOf viewId S)"
  by (cases "m_views (model S)")
     (simp_all add: viewIdOrPrimary_def targetViewIdOf_def primaryView_def)



text \<open>
  Every state has at least one view: the constructor sees to it, every operation
  ends in the constructor, and on such a state no operation raises.
\<close>

lemma operations_keep_a_view:
  "addNode u p S = Inr S' \<Longrightarrow> m_views (model S') \<noteq> []"
  "removeNode u n v S = Inr S' \<Longrightarrow> m_views (model S') \<noteq> []"
  "addConnector u q S = Inr S' \<Longrightarrow> m_views (model S') \<noteq> []"
  by (auto simp: addNode_def removeNode_def addConnector_def Let_def new_DiagramState_views
      split: sum.splits)

lemma operations_total:
  assumes "m_views (model S) \<noteq> []"
  shows "\<exists>S'. addNode u p S = Inr S'" "\<exists>S'. removeNode u n v S = Inr S'"
    "\<exists>S'. addConnector u q S = Inr S'"
  using assms
  by (simp_all add: addNode_def removeNode_def addConnector_def Let_def viewIdOrPrimary_target)

lemma removeNodeFromView_eq:
  "removeNodeFromView nodeId view =
     view \<lparr> v_items := deleteFirst (\<lambda>i. vi_id i = nodeId) (v_items view),
            v_connectors := map_option (filter (\<lambda>c. \<not> connectorRefers nodeId c))
                              (v_connectors view) \<rparr>"
proof -
  have "(\<lambda>connector. \<not> list_ex (\<lambda>anchor. ref_item (a_ref anchor) = Some nodeId)
                          (c_anchors connector))
        = (\<lambda>c. \<not> connectorRefers nodeId c)"
    by (simp add: connectorRefers_def list_ex_iff)
  then show ?thesis
    by (simp add: removeNodeFromView_def splice_findIndex split: option.splits)
qed

lemma removeNode_model:
  assumes "m_views (model S) \<noteq> []"
  shows "removeNode u nodeId viewId S =
     Inr \<lparr> model = (model S)
              \<lparr> m_items := deleteFirst (\<lambda>i. mi_id i = nodeId) (m_items (model S)),
                m_views := mutateFoundView (\<lambda>v. v_id v = targetViewIdOf viewId S)
                             (removeNodeFromView nodeId) (m_views (model S)) \<rparr>,
            scene = INITIAL_SCENE \<rparr>"
proof -
  let ?m = "(model S)
              \<lparr> m_items := deleteFirst (\<lambda>i. mi_id i = nodeId) (m_items (model S)),
                m_views := mutateFoundView (\<lambda>v. v_id v = targetViewIdOf viewId S)
                             (removeNodeFromView nodeId) (m_views (model S)) \<rparr>"
  have v: "m_views ?m \<noteq> []"
    using assms by simp
  have "removeNode u nodeId viewId S = Inr (new_DiagramState u (Some (Full ?m)))"
    unfolding removeNode_def viewIdOrPrimary_target [OF assms] Let_def splice_findIndex
    by simp
  then show ?thesis
    by (simp only: new_DiagramState_Full [OF v])
qed

lemma connectorsOf_pruned:
  "c \<in> set (connectorsOf (removeNodeFromView nodeId view)) \<Longrightarrow> \<not> connectorRefers nodeId c"
  by (cases "v_connectors view") (simp_all add: removeNodeFromView_eq connectorsOf_def)

lemma removeNode_general:
  assumes "m_views (model S) \<noteq> []"
  shows "\<exists>S'. removeNode u nodeId viewId S = Inr S'
     \<and> model S' = (model S)
           \<lparr> m_items := deleteFirst (\<lambda>i. mi_id i = nodeId) (m_items (model S)),
             m_views := m_views (model S') \<rparr>
     \<and> length (m_views (model S')) = length (m_views (model S))
     \<and> (\<forall>k < length (m_views (model S)).
          if findIndex (\<lambda>v. v_id v = targetViewIdOf viewId S) (m_views (model S)) = Some k
          then m_views (model S') ! k =
                 (m_views (model S) ! k)
                   \<lparr> v_items := deleteFirst (\<lambda>i. vi_id i = nodeId)
                                  (v_items (m_views (model S) ! k)),
                     v_connectors := map_option (filter (\<lambda>c. \<not> connectorRefers nodeId c))
                                       (v_connectors (m_views (model S) ! k)) \<rparr>
               \<and> (\<forall>c \<in> set (connectorsOf (m_views (model S') ! k)).
                     \<not> connectorRefers nodeId c)
          else m_views (model S') ! k = m_views (model S) ! k)"
proof -
  let ?views' = "mutateFoundView (\<lambda>v. v_id v = targetViewIdOf viewId S)
                   (removeNodeFromView nodeId) (m_views (model S))"
  let ?S' = "\<lparr> model = (model S)
              \<lparr> m_items := deleteFirst (\<lambda>i. mi_id i = nodeId) (m_items (model S)),
                m_views := ?views' \<rparr>,
            scene = INITIAL_SCENE \<rparr>"
  have r: "removeNode u nodeId viewId S = Inr ?S'"
    by (rule removeNode_model [OF assms])
  have v: "m_views (model ?S') = ?views'" by simp
  have k: "if findIndex (\<lambda>v. v_id v = targetViewIdOf viewId S) (m_views (model S)) = Some k
          then ?views' ! k =
                 (m_views (model S) ! k)
                   \<lparr> v_items := deleteFirst (\<lambda>i. vi_id i = nodeId)
                                  (v_items (m_views (model S) ! k)),
                     v_connectors := map_option (filter (\<lambda>c. \<not> connectorRefers nodeId c))
                                       (v_connectors (m_views (model S) ! k)) \<rparr>
               \<and> (\<forall>c \<in> set (connectorsOf (?views' ! k)). \<not> connectorRefers nodeId c)
          else ?views' ! k = m_views (model S) ! k"
    if "k < length (m_views (model S))" for k
  proof (cases "findIndex (\<lambda>v. v_id v = targetViewIdOf viewId S) (m_views (model S)) = Some k")
    case True
    with that have "?views' ! k = removeNodeFromView nodeId (m_views (model S) ! k)"
      by (simp add: mutateFoundView_nth)
    with True show ?thesis
      using connectorsOf_pruned [of _ nodeId "m_views (model S) ! k"]
      by (simp add: removeNodeFromView_eq [symmetric])
  next
    case False
    with that show ?thesis by (simp add: mutateFoundView_nth)
  qed
  show ?thesis
  proof (intro exI conjI)
    show "removeNode u nodeId viewId S = Inr ?S'" by (rule r)
    show "model ?S' = (model S)
           \<lparr> m_items := deleteFirst (\<lambda>i. mi_id i = nodeId) (m_items (model S)),
             m_views := m_views (model ?S') \<rparr>" by simp
    show "length (m_views (model ?S')) = length (m_views (model S))" by simp
    show "\<forall>k < length (m_views (model S)).
          if findIndex (\<lambda>v. v_id v = targetViewIdOf viewId S) (m_views (model S)) = Some k
          then m_views (model ?S') ! k =
                 (m_views (model S) ! k)
                   \<lparr> v_items := deleteFirst (\<lambda>i. vi_id i = nodeId)
                                  (v_items (m_views (model S) ! k)),
                     v_connectors := map_option (filter (\<lambda>c. \<not> connectorRefers nodeId c))
                                       (v_connectors (m_views (model S) ! k)) \<rparr>
               \<and> (\<forall>c \<in> set (connectorsOf (m_views (model ?S') ! k)).
                     \<not> connectorRefers nodeId c)
          else m_views (model ?S') ! k = m_views (model S) ! k"
      unfolding v using k by blast
  qed
qed


lemma addConnector_model:
  assumes "m_views (model S) \<noteq> []"
  shows "addConnector u params S =
     Inr \<lparr> model = (model S)
              \<lparr> m_views := mutateFoundView (\<lambda>v. v_id v = targetViewIdOf (ac_viewId params) S)
                             (addConnectorToView u (u ConnectorId) params)
                             (m_views (model S)) \<rparr>,
            scene = INITIAL_SCENE \<rparr>"
proof -
  let ?m = "(model S)
              \<lparr> m_views := mutateFoundView (\<lambda>v. v_id v = targetViewIdOf (ac_viewId params) S)
                             (addConnectorToView u (u ConnectorId) params)
                             (m_views (model S)) \<rparr>"
  have v: "m_views ?m \<noteq> []"
    using assms by simp
  have "addConnector u params S = Inr (new_DiagramState u (Some (Full ?m)))"
    unfolding addConnector_def viewIdOrPrimary_target [OF assms] Let_def
    by simp
  then show ?thesis
    by (simp only: new_DiagramState_Full [OF v])
qed

lemma find_findIndex:
  "find P xs = (case findIndex P xs of None \<Rightarrow> None | Some k \<Rightarrow> Some (xs ! k))"
  by (induction xs) (simp_all split: option.splits)

lemma mutateFoundView_unchanged:
  assumes "\<And>k. findIndex P views = Some k \<Longrightarrow> f (views ! k) = views ! k"
  shows "mutateFoundView P f views = views"
  using assms by (simp add: mutateFoundView_def split: option.splits)

lemma addConnectorToView_noop:
  "\<not> (\<exists>i \<in> set (v_items view). vi_id i = ac_fromNodeId params)
     \<or> \<not> (\<exists>i \<in> set (v_items view). vi_id i = ac_toNodeId params) \<Longrightarrow>
   addConnectorToView u connectorId params view = view"
  by (auto simp: addConnectorToView_def list_ex_iff)

text \<open>
  C4. In every state, when the view with the target identifier does not exist, or
  it has no view item for the from-endpoint or none for the to-endpoint,
  \<open>addConnector\<close> raises no error and returns a state whose model is the model it
  was given.
\<close>

theorem addConnector_noop:
  assumes "m_views (model S) \<noteq> []"
    and "case find (\<lambda>v. v_id v = targetViewIdOf (ac_viewId params) S) (m_views (model S)) of
           None \<Rightarrow> True
         | Some view \<Rightarrow>
             \<not> (\<exists>i \<in> set (v_items view). vi_id i = ac_fromNodeId params)
             \<or> \<not> (\<exists>i \<in> set (v_items view). vi_id i = ac_toNodeId params)"
  shows "\<exists>S'. addConnector u params S = Inr S' \<and> model S' = model S"
proof -
  have "mutateFoundView (\<lambda>v. v_id v = targetViewIdOf (ac_viewId params) S)
          (addConnectorToView u (u ConnectorId) params) (m_views (model S))
        = m_views (model S)"
  proof (rule mutateFoundView_unchanged)
    fix k
    assume "findIndex (\<lambda>v. v_id v = targetViewIdOf (ac_viewId params) S) (m_views (model S))
              = Some k"
    with assms(2) have
      "\<not> (\<exists>i \<in> set (v_items (m_views (model S) ! k)). vi_id i = ac_fromNodeId params)
       \<or> \<not> (\<exists>i \<in> set (v_items (m_views (model S) ! k)). vi_id i = ac_toNodeId params)"
      by (simp add: find_findIndex)
    then show "addConnectorToView u (u ConnectorId) params (m_views (model S) ! k)
                 = m_views (model S) ! k"
      by (rule addConnectorToView_noop)
  qed
  then show ?thesis
    by (simp add: addConnector_model [OF assms(1)])
qed

lemma addConnectorToView_added:
  assumes "\<exists>i \<in> set (v_items view). vi_id i = ac_fromNodeId params"
    and "\<exists>i \<in> set (v_items view). vi_id i = ac_toNodeId params"
  shows "addConnectorToView u connectorId params view
           = view \<lparr> v_connectors :=
                      Some (connectorsOf view @ [newConnector u connectorId params]) \<rparr>"
  using assms
  by (simp add: addConnectorToView_def list_ex_iff connectorsOf_def)

lemma newConnector_refers:
  "connectorRefers (ac_fromNodeId params) (newConnector u connectorId params)"
  "connectorRefers (ac_toNodeId params) (newConnector u connectorId params)"
  by (simp_all add: newConnector_def connectorRefers_def)

lemma addConnectorToView_id [simp]: "v_id (addConnectorToView u cid params view) = v_id view"
  by (simp add: addConnectorToView_def Let_def)

lemma removeNodeFromView_id [simp]: "v_id (removeNodeFromView nodeId view) = v_id view"
  by (simp add: removeNodeFromView_def Let_def)

lemma findIndex_cong_map:
  "map g xs = map g ys \<Longrightarrow> findIndex (\<lambda>x. Q (g x)) xs = findIndex (\<lambda>x. Q (g x)) ys"
proof (induction xs arbitrary: ys)
  case Nil
  then show ?case by simp
next
  case (Cons x xs)
  then obtain y ys' where ys: "ys = y # ys'" "g x = g y" "map g xs = map g ys'"
    by (cases ys) auto
  from Cons.IH [OF ys(3)] ys(1,2) show ?case by simp
qed

lemma mutateFoundView_ids:
  assumes "\<And>v. v_id (f v) = v_id v"
  shows "map v_id (mutateFoundView P f views) = map v_id views"
proof (cases "findIndex P views")
  case None
  then show ?thesis by (simp add: mutateFoundView_def)
next
  case (Some k)
  then have "k < length views" by (simp add: findIndex_Some)
  then have "(map v_id views)[k := v_id (views ! k)] = map v_id views"
    by (metis length_map list_update_id nth_map)
  with Some assms show ?thesis
    by (simp add: mutateFoundView_def map_update)
qed


lemma targetViewIdOf_cong:
  assumes "map v_id (m_views (model S')) = map v_id (m_views (model S))"
  shows "targetViewIdOf viewId S' = targetViewIdOf viewId S"
proof (cases "m_views (model S)")
  case Nil
  with assms show ?thesis by (simp add: targetViewIdOf_def)
next
  case (Cons v vs)
  with assms obtain v' vs' where "m_views (model S') = v' # vs'" "v_id v' = v_id v"
    by (cases "m_views (model S')") auto
  with Cons show ?thesis by (simp add: targetViewIdOf_def)
qed

lemma removeNode_after_addConnector:
  assumes ne: "m_views (model S) \<noteq> []"
    and k: "findIndex (\<lambda>v. v_id v = targetViewIdOf (ac_viewId params) S) (m_views (model S))
              = Some k"
    and "\<exists>i \<in> set (v_items (m_views (model S) ! k)). vi_id i = ac_fromNodeId params"
    and "\<exists>i \<in> set (v_items (m_views (model S) ! k)). vi_id i = ac_toNodeId params"
    and n: "nodeId = ac_fromNodeId params \<or> nodeId = ac_toNodeId params"
  shows "\<exists>S1 S2. addConnector u' params S = Inr S1
     \<and> connectorsOf (m_views (model S1) ! k)
         = connectorsOf (m_views (model S) ! k) @ [newConnector u' (u' ConnectorId) params]
     \<and> connectorRefers nodeId (newConnector u' (u' ConnectorId) params)
     \<and> removeNode u nodeId (ac_viewId params) S1 = Inr S2
     \<and> (\<forall>c \<in> set (connectorsOf (m_views (model S2) ! k)). \<not> connectorRefers nodeId c)"
proof -
  let ?t = "targetViewIdOf (ac_viewId params) S"
  let ?views1 = "mutateFoundView (\<lambda>v. v_id v = ?t)
                   (addConnectorToView u' (u' ConnectorId) params) (m_views (model S))"
  let ?S1 = "\<lparr> model = (model S) \<lparr> m_views := ?views1 \<rparr>, scene = INITIAL_SCENE \<rparr>"
  have a: "addConnector u' params S = Inr ?S1"
    by (rule addConnector_model [OF ne])
  from k have kl: "k < length (m_views (model S))"
    by (simp add: findIndex_Some)
  have ids: "map v_id (m_views (model ?S1)) = map v_id (m_views (model S))"
    by (simp add: mutateFoundView_ids)
  have ne1: "m_views (model ?S1) \<noteq> []"
    using ne by simp
  have t1: "targetViewIdOf (ac_viewId params) ?S1 = ?t"
    by (rule targetViewIdOf_cong [OF ids])
  have k1: "findIndex (\<lambda>v. v_id v = targetViewIdOf (ac_viewId params) ?S1) (m_views (model ?S1))
              = Some k"
    unfolding t1 using findIndex_cong_map [OF ids, of "\<lambda>i. i = ?t"] k by simp
  have c1: "connectorsOf (m_views (model ?S1) ! k)
         = connectorsOf (m_views (model S) ! k) @ [newConnector u' (u' ConnectorId) params]"
    using kl k assms(3,4)
    by (simp add: mutateFoundView_nth addConnectorToView_added) (simp add: connectorsOf_def)
  from removeNode_general [OF ne1, of u nodeId "ac_viewId params"]
  obtain S2 where S2: "removeNode u nodeId (ac_viewId params) ?S1 = Inr S2"
    and all: "\<forall>j < length (m_views (model ?S1)).
          if findIndex (\<lambda>v. v_id v = targetViewIdOf (ac_viewId params) ?S1)
               (m_views (model ?S1)) = Some j
          then m_views (model S2) ! j =
                 (m_views (model ?S1) ! j)
                   \<lparr> v_items := deleteFirst (\<lambda>i. vi_id i = nodeId)
                                  (v_items (m_views (model ?S1) ! j)),
                     v_connectors := map_option (filter (\<lambda>c. \<not> connectorRefers nodeId c))
                                       (v_connectors (m_views (model ?S1) ! j)) \<rparr>
               \<and> (\<forall>c \<in> set (connectorsOf (m_views (model S2) ! j)).
                     \<not> connectorRefers nodeId c)
          else m_views (model S2) ! j = m_views (model ?S1) ! j"
    by blast
  from kl have "k < length (m_views (model ?S1))" by simp
  with all k1 have p: "\<forall>c \<in> set (connectorsOf (m_views (model S2) ! k)).
                     \<not> connectorRefers nodeId c"
    by (metis (no_types, lifting))
  from n have r: "connectorRefers nodeId (newConnector u' (u' ConnectorId) params)"
    using newConnector_refers [of params u' "u' ConnectorId"] by auto
  from a c1 r S2 p show ?thesis by blast
qed





lemma getView_in_views:
  assumes "m_views (model S) = pv # rest"
  shows "\<exists>view \<in> set (m_views (model S)). getView viewId S = Some view"
proof (cases "truthy viewId")
  case False
  with assms show ?thesis by (simp add: getView_def primaryView_def)
next
  case True
  show ?thesis
  proof (cases "find (\<lambda>v. v_id v = the viewId) (m_views (model S))")
    case None
    with True assms show ?thesis by (simp add: getView_def primaryView_def)
  next
    case (Some view)
    then have "view \<in> set (m_views (model S))"
      by (auto simp: find_Some_iff)
    with True Some show ?thesis by (simp add: getView_def)
  qed
qed

text \<open>
  C8, as the code has it. In every state, \<open>addNode\<close> with a non-empty \<open>viewId\<close> that
  is the identifier of no view appends the new model item and leaves every view as it
  was; the node then is the last entry of \<open>listNodes\<close>, for any view, with an
  undefined position (the new identifier being fresh: no view item has it).
\<close>

theorem addNode_unknown_view:
  assumes ne: "m_views (model S) \<noteq> []"
    and vid: "an_viewId params = Some vid" "vid \<noteq> []"
    and unknown: "\<forall>view \<in> set (m_views (model S)). v_id view \<noteq> vid"
    and fresh: "\<forall>view \<in> set (m_views (model S)). \<forall>i \<in> set (v_items view). vi_id i \<noteq> u NodeId"
  shows "\<exists>S'. addNode u params S = Inr S'
      \<and> m_items (model S') =
          m_items (model S)
          @ [\<lparr> mi_id = u NodeId, mi_name = an_name params,
               mi_description = an_description params, mi_icon = an_icon params \<rparr>]
      \<and> m_views (model S') = m_views (model S)
      \<and> (\<forall>viewId. \<exists>nodes. listNodes viewId S' = Inr nodes
             \<and> length nodes = Suc (length (m_items (model S)))
             \<and> ni_id (last nodes) = u NodeId
             \<and> ni_name (last nodes) = an_name params
             \<and> ni_position (last nodes) = None)"
proof -
  let ?item = "\<lparr> mi_id = u NodeId, mi_name = an_name params,
               mi_description = an_description params, mi_icon = an_icon params \<rparr>"
  let ?S' = "\<lparr> model = (model S) \<lparr> m_items := m_items (model S) @ [?item] \<rparr>,
              scene = INITIAL_SCENE \<rparr>"
  from unknown have "findIndex (\<lambda>v. v_id v = vid) (m_views (model S)) = None"
    by (simp add: findIndex_None_iff)
  then have mv: "mutateFoundView (\<lambda>v. v_id v = vid) (addNodeToView (u NodeId) params)
                   (m_views (model S)) = m_views (model S)"
    by (simp add: mutateFoundView_def)
  have vp: "viewIdOrPrimary (an_viewId params) S = Inr vid"
    using vid by (simp add: viewIdOrPrimary_def truthy_def)
  have a: "addNode u params S = Inr ?S'"
    unfolding addNode_def vp Let_def
    using ne by (simp add: mv new_DiagramState_Full)
  have l: "\<exists>nodes. listNodes viewId ?S' = Inr nodes
             \<and> length nodes = Suc (length (m_items (model S)))
             \<and> ni_id (last nodes) = u NodeId
             \<and> ni_name (last nodes) = an_name params
             \<and> ni_position (last nodes) = None" for viewId
  proof -
    from ne obtain pv rest where "m_views (model ?S') = pv # rest"
      by (cases "m_views (model S)") auto
    from getView_in_views [OF this, of viewId]
    obtain view where view: "view \<in> set (m_views (model S))" "getView viewId ?S' = Some view"
      by auto
    with fresh have "find (\<lambda>vi. vi_id vi = u NodeId) (v_items view) = None"
      by (simp add: find_None_iff)
    then have "ni_position (nodeInfo view ?item) = None" "ni_id (nodeInfo view ?item) = u NodeId"
      "ni_name (nodeInfo view ?item) = an_name params"
      by (simp_all add: nodeInfo_def)
    with view(2) show ?thesis
      by (simp add: listNodes_def)
  qed
  from a l show ?thesis by auto
qed

text \<open>
  C10. In every state, for a \<open>viewId\<close> string that is the identifier of no view,
  \<open>getView\<close> returns the primary (first) view, and \<open>listNodes\<close> and
  \<open>listConnectors\<close> return, without an error, the nodes and the connectors as read
  from the primary view: the same results as without a \<open>viewId\<close>.
\<close>

theorem read_unknown_view:
  assumes pv: "m_views (model S) = pv # rest"
    and unknown: "\<forall>view \<in> set (m_views (model S)). v_id view \<noteq> vid"
  shows "getView (Some vid) S = Some pv
       \<and> listNodes (Some vid) S = Inr (map (nodeInfo pv) (m_items (model S)))
       \<and> listConnectors (Some vid) S = Inr (map connectorInfo (connectorsOf pv))
       \<and> getView (Some vid) S = primaryView S
       \<and> listNodes (Some vid) S = listNodes None S
       \<and> listConnectors (Some vid) S = listConnectors None S"
proof -
  from unknown have "find (\<lambda>v. v_id v = vid) (m_views (model S)) = None"
    by (simp add: find_None_iff)
  with pv have "getView (Some vid) S = Some pv"
    by (simp add: getView_def primaryView_def)
  moreover from pv have "getView None S = Some pv" "primaryView S = Some pv"
    by (simp_all add: getView_def primaryView_def truthy_def)
  ultimately show ?thesis
    by (simp add: listNodes_def listConnectors_def connectorsOf_def)
qed


lemma connected_reachable:
  "addNode uuidA node1 emptyState = Inr (stateOf [item1] [place1] [])
   \<and> addNode uuidB node2 (stateOf [item1] [place1] []) = Inr twoNodes
   \<and> addConnector uuidA link12 twoNodes = Inr connected"
  by (simp add: emptyState_def new_DiagramState_def addNode_def viewIdOrPrimary_def truthy_def
      primaryView_def INITIAL_MODEL_def createDefaultView_def uuidA_def uuidB_def node1_def
      node2_def mutateFoundView_def addNodeToView_def DEFAULT_LABEL_HEIGHT_def normalize_def
      stateOf_def mainView_def item1_def item2_def place1_def place2_def twoNodes_def
      connected_def addConnector_def addConnectorToView_def link12_def Let_def)


text \<open>
  C3. In every state (a state always has a view), \<open>removeNode(nodeId, viewId)\<close>
  returns a state in which the first model item with that identifier is gone (the
  items are unchanged when there is none) and nothing else of the model has changed
  outside the views; the first view whose identifier is the target has lost its first
  view item with that identifier and every connector that has an anchor referring to
  the node, so that no connector of that view refers to the node any more; every
  other view is exactly as it was. In particular, where \<open>addConnector\<close> finds the view
  and both endpoints placed in it, it appends a connector that refers to both, and
  \<open>removeNode\<close> on either endpoint afterwards leaves no connector of that view that
  refers to the removed node.
\<close>

theorem removeNode_prunes:
  assumes "m_views (model S) \<noteq> []"
  shows "(\<exists>S'. removeNode u nodeId viewId S = Inr S'
     \<and> model S' = (model S)
           \<lparr> m_items := deleteFirst (\<lambda>i. mi_id i = nodeId) (m_items (model S)),
             m_views := m_views (model S') \<rparr>
     \<and> length (m_views (model S')) = length (m_views (model S))
     \<and> (\<forall>k < length (m_views (model S)).
          if findIndex (\<lambda>v. v_id v = targetViewIdOf viewId S) (m_views (model S)) = Some k
          then m_views (model S') ! k =
                 (m_views (model S) ! k)
                   \<lparr> v_items := deleteFirst (\<lambda>i. vi_id i = nodeId)
                                  (v_items (m_views (model S) ! k)),
                     v_connectors := map_option (filter (\<lambda>c. \<not> connectorRefers nodeId c))
                                       (v_connectors (m_views (model S) ! k)) \<rparr>
               \<and> (\<forall>c \<in> set (connectorsOf (m_views (model S') ! k)).
                     \<not> connectorRefers nodeId c)
          else m_views (model S') ! k = m_views (model S) ! k))
   \<and> (\<forall>u' params k.
         findIndex (\<lambda>v. v_id v = targetViewIdOf (ac_viewId params) S) (m_views (model S))
           = Some k
         \<and> (\<exists>i \<in> set (v_items (m_views (model S) ! k)). vi_id i = ac_fromNodeId params)
         \<and> (\<exists>i \<in> set (v_items (m_views (model S) ! k)). vi_id i = ac_toNodeId params)
         \<and> (nodeId = ac_fromNodeId params \<or> nodeId = ac_toNodeId params)
         \<longrightarrow>
         (\<exists>S1 S2. addConnector u' params S = Inr S1
            \<and> connectorsOf (m_views (model S1) ! k)
                = connectorsOf (m_views (model S) ! k)
                  @ [newConnector u' (u' ConnectorId) params]
            \<and> connectorRefers nodeId (newConnector u' (u' ConnectorId) params)
            \<and> removeNode u nodeId (ac_viewId params) S1 = Inr S2
            \<and> (\<forall>c \<in> set (connectorsOf (m_views (model S2) ! k)).
                  \<not> connectorRefers nodeId c)))"
  using removeNode_general [OF assms, of u nodeId viewId]
    removeNode_after_addConnector [OF assms, where nodeId = nodeId and u = u]
  by blast

theorem removeNode_prunes_witness:
  "m_views (model connected) \<noteq> []
   \<and> addConnector uuidA link12 twoNodes = Inr connected
   \<and> length (connectorsOf (m_views (model connected) ! 0)) = 1
   \<and> removeNode uuidB ''n1'' None connected = Inr (stateOf [item2] [place2] [])
   \<and> deleteFirst (\<lambda>i. mi_id i = ''n1'') (m_items (model connected)) = [item2]
   \<and> connectorsOf (m_views (model (stateOf [item2] [place2] [])) ! 0) = []"
proof -
  have ne: "m_views (model connected) \<noteq> []"
    by (simp add: connected_def stateOf_def)
  have r: "removeNode uuidB ''n1'' None connected = Inr (stateOf [item2] [place2] [])"
    by (simp add: removeNode_def viewIdOrPrimary_def truthy_def primaryView_def connected_def
        stateOf_def mainView_def item1_def item2_def place1_def place2_def splice1_def
        mutateFoundView_def removeNodeFromView_def newConnector_def link12_def
        new_DiagramState_def normalize_def INITIAL_MODEL_def Let_def)
  from removeNode_prunes [OF ne, of uuidB "''n1''" None] r
  have "m_items (model (stateOf [item2] [place2] []))
          = deleteFirst (\<lambda>i. mi_id i = ''n1'') (m_items (model connected))"
    by (metis (no_types, lifting) Inr_inject Model.select_convs(4) Model.surjective
        Model.update_convs(4) Model.update_convs(5))
  then have d: "deleteFirst (\<lambda>i. mi_id i = ''n1'') (m_items (model connected)) = [item2]"
    by (simp add: stateOf_def)
  have c: "connectorsOf (m_views (model (stateOf [item2] [place2] [])) ! 0) = []"
       "length (connectorsOf (m_views (model connected) ! 0)) = 1"
    by (simp_all add: stateOf_def mainView_def connectorsOf_def connected_def)
  from ne connected_reachable r d c show ?thesis by simp
qed


theorem addConnector_noop_witness:
  "m_views (model twoNodes) \<noteq> []
   \<and> find (\<lambda>v. v_id v = targetViewIdOf (ac_viewId linkGhost) twoNodes)
        (m_views (model twoNodes)) = Some (mainView [place1, place2] [])
   \<and> list_ex (\<lambda>i. vi_id i = ac_fromNodeId linkGhost) [place1, place2]
   \<and> \<not> list_ex (\<lambda>i. vi_id i = ac_toNodeId linkGhost) [place1, place2]
   \<and> addConnector uuidA linkGhost twoNodes = Inr twoNodes"
proof -
  have ne: "m_views (model twoNodes) \<noteq> []"
    by (simp add: twoNodes_def stateOf_def mainView_def item1_def item2_def place1_def
        place2_def INITIAL_MODEL_def)
  have f: "find (\<lambda>v. v_id v = targetViewIdOf (ac_viewId linkGhost) twoNodes)
        (m_views (model twoNodes)) = Some (mainView [place1, place2] [])"
    by (simp add: twoNodes_def stateOf_def mainView_def item1_def item2_def place1_def
        place2_def INITIAL_MODEL_def linkGhost_def targetViewIdOf_def truthy_def)
  have e: "list_ex (\<lambda>i. vi_id i = ac_fromNodeId linkGhost) [place1, place2]"
       "\<not> list_ex (\<lambda>i. vi_id i = ac_toNodeId linkGhost) [place1, place2]"
    by (simp_all add: twoNodes_def stateOf_def mainView_def item1_def item2_def place1_def
        place2_def INITIAL_MODEL_def linkGhost_def)
  have h: "case find (\<lambda>v. v_id v = targetViewIdOf (ac_viewId linkGhost) twoNodes)
                  (m_views (model twoNodes)) of
           None \<Rightarrow> True
         | Some view \<Rightarrow>
             \<not> (\<exists>i \<in> set (v_items view). vi_id i = ac_fromNodeId linkGhost)
             \<or> \<not> (\<exists>i \<in> set (v_items view). vi_id i = ac_toNodeId linkGhost)"
    unfolding f by (simp add: twoNodes_def stateOf_def mainView_def item1_def item2_def place1_def
        place2_def INITIAL_MODEL_def linkGhost_def)
  from addConnector_noop [OF ne h, of uuidA]
  obtain S' where S': "addConnector uuidA linkGhost twoNodes = Inr S'" "model S' = model twoNodes"
    by blast
  have "scene S' = INITIAL_SCENE"
    using S'(1) by (auto simp: addConnector_def Let_def new_DiagramState_def
        split: sum.splits option.splits)
  with S'(2) have "S' = twoNodes"
    by (simp add: twoNodes_def stateOf_def mainView_def item1_def item2_def place1_def
        place2_def INITIAL_MODEL_def)
  with ne f e S'(1) show ?thesis by simp
qed






theorem addNode_unknown_view_witness:
  "m_views (model (stateOf [item1] [place1] [])) \<noteq> []
   \<and> an_viewId nodeNowhere = Some ''nowhere''
   \<and> map v_id (m_views (model (stateOf [item1] [place1] []))) = [''v1'']
   \<and> map vi_id (v_items (m_views (model (stateOf [item1] [place1] [])) ! 0)) = [''n1'']
   \<and> uuidB NodeId = ''n2''
   \<and> addNode uuidB nodeNowhere (stateOf [item1] [place1] [])
       = Inr (stateOf [item1, item2] [place1] [])
   \<and> listNodes None (stateOf [item1, item2] [place1] [])
       = Inr [\<lparr> ni_id = ''n1'', ni_name = ''Node 1'', ni_icon = None, ni_description = None,
                 ni_position = Some \<lparr> coord_x = 0, coord_y = 0 \<rparr> \<rparr>,
               \<lparr> ni_id = ''n2'', ni_name = ''Node 2'', ni_icon = None, ni_description = None,
                 ni_position = None \<rparr>]"
proof -
  let ?S = "stateOf [item1] [place1] []"
  have ne: "m_views (model ?S) \<noteq> []"
    by (simp add: stateOf_def mainView_def item1_def item2_def place1_def
        INITIAL_MODEL_def uuidB_def)
  have v: "an_viewId nodeNowhere = Some ''nowhere''" "''nowhere'' \<noteq> []"
    by (simp_all add: nodeNowhere_def)
  have ids: "map v_id (m_views (model ?S)) = [''v1'']"
       "map vi_id (v_items (m_views (model ?S) ! 0)) = [''n1'']" "uuidB NodeId = ''n2''"
    by (simp_all add: stateOf_def mainView_def item1_def item2_def place1_def
        INITIAL_MODEL_def uuidB_def)
  have unknown: "\<forall>view \<in> set (m_views (model ?S)). v_id view \<noteq> ''nowhere''"
    by (simp add: stateOf_def mainView_def item1_def item2_def place1_def
        INITIAL_MODEL_def uuidB_def)
  have fresh: "\<forall>view \<in> set (m_views (model ?S)). \<forall>i \<in> set (v_items view).
                 vi_id i \<noteq> uuidB NodeId"
    by (simp add: stateOf_def mainView_def item1_def item2_def place1_def
        INITIAL_MODEL_def uuidB_def)
  from addNode_unknown_view [where u = uuidB, OF ne v unknown fresh]
  obtain S' where S': "addNode uuidB nodeNowhere ?S = Inr S'"
      "m_items (model S') = m_items (model ?S)
          @ [\<lparr> mi_id = uuidB NodeId, mi_name = an_name nodeNowhere,
               mi_description = an_description nodeNowhere, mi_icon = an_icon nodeNowhere \<rparr>]"
      "m_views (model S') = m_views (model ?S)"
    by blast
  have a: "addNode uuidB nodeNowhere ?S = Inr (stateOf [item1, item2] [place1] [])"
    by (simp add: addNode_def viewIdOrPrimary_def truthy_def nodeNowhere_def stateOf_def mainView_def item1_def item2_def place1_def
        INITIAL_MODEL_def uuidB_def
        mutateFoundView_def new_DiagramState_def normalize_def Let_def)
  have l: "listNodes None (stateOf [item1, item2] [place1] [])
       = Inr [\<lparr> ni_id = ''n1'', ni_name = ''Node 1'', ni_icon = None, ni_description = None,
                 ni_position = Some \<lparr> coord_x = 0, coord_y = 0 \<rparr> \<rparr>,
               \<lparr> ni_id = ''n2'', ni_name = ''Node 2'', ni_icon = None, ni_description = None,
                 ni_position = None \<rparr>]"
    by (simp add: listNodes_def getView_def truthy_def primaryView_def nodeInfo_def
        stateOf_def mainView_def item1_def item2_def place1_def
        INITIAL_MODEL_def uuidB_def)
  from ne v ids a l S' show ?thesis by simp
qed

text \<open>
  The empty string is a \<open>viewId\<close> that names no view here, and \<open>addNode\<close> falls back
  to the primary view for it: the node is placed and listed with its position.
\<close>

theorem addNode_unknown_view_counterexample:
  "an_viewId nodeEmptyViewId = Some []
   \<and> map v_id (m_views (model (stateOf [item1] [place1] []))) = [''v1'']
   \<and> addNode uuidB nodeEmptyViewId (stateOf [item1] [place1] []) = Inr twoNodes
   \<and> v_items (m_views (model twoNodes) ! 0) = [place1, place2]
   \<and> listNodes None twoNodes
       = Inr [\<lparr> ni_id = ''n1'', ni_name = ''Node 1'', ni_icon = None, ni_description = None,
                 ni_position = Some \<lparr> coord_x = 0, coord_y = 0 \<rparr> \<rparr>,
               \<lparr> ni_id = ''n2'', ni_name = ''Node 2'', ni_icon = None, ni_description = None,
                 ni_position = Some \<lparr> coord_x = 5, coord_y = 0 \<rparr> \<rparr>]"
  by (simp add: addNode_def viewIdOrPrimary_def truthy_def nodeEmptyViewId_def twoNodes_def stateOf_def mainView_def item1_def item2_def place1_def
      place2_def INITIAL_MODEL_def uuidB_def
      primaryView_def mutateFoundView_def addNodeToView_def DEFAULT_LABEL_HEIGHT_def
      new_DiagramState_def normalize_def listNodes_def getView_def nodeInfo_def Let_def)

theorem read_unknown_view_witness:
  "m_views (model connected)
     = [mainView [place1, place2] [newConnector uuidA ''k1'' link12]]
   \<and> map v_id (m_views (model connected)) = [''v1'']
   \<and> getView (Some ''nowhere'') connected
       = Some (mainView [place1, place2] [newConnector uuidA ''k1'' link12])
   \<and> listNodes (Some ''nowhere'') connected
       = Inr [\<lparr> ni_id = ''n1'', ni_name = ''Node 1'', ni_icon = None, ni_description = None,
                 ni_position = Some \<lparr> coord_x = 0, coord_y = 0 \<rparr> \<rparr>,
               \<lparr> ni_id = ''n2'', ni_name = ''Node 2'', ni_icon = None, ni_description = None,
                 ni_position = Some \<lparr> coord_x = 5, coord_y = 0 \<rparr> \<rparr>]
   \<and> listConnectors (Some ''nowhere'') connected
       = Inr [\<lparr> ci_id = ''k1'', ci_from = ''n1'', ci_to = ''n2'', ci_style = Some SOLID,
                 ci_label = None \<rparr>]"
proof -
  have pv: "m_views (model connected)
     = mainView [place1, place2] [newConnector uuidA ''k1'' link12] # []"
    by (simp add: connected_def stateOf_def)
  have ids: "map v_id (m_views (model connected)) = [''v1'']"
    by (simp add: connected_def stateOf_def mainView_def)
  have unknown: "\<forall>view \<in> set (m_views (model connected)). v_id view \<noteq> ''nowhere''"
    by (simp add: connected_def stateOf_def mainView_def)
  have n: "map (nodeInfo (mainView [place1, place2] [newConnector uuidA ''k1'' link12]))
             (m_items (model connected))
       = [\<lparr> ni_id = ''n1'', ni_name = ''Node 1'', ni_icon = None, ni_description = None,
                 ni_position = Some \<lparr> coord_x = 0, coord_y = 0 \<rparr> \<rparr>,
               \<lparr> ni_id = ''n2'', ni_name = ''Node 2'', ni_icon = None, ni_description = None,
                 ni_position = Some \<lparr> coord_x = 5, coord_y = 0 \<rparr> \<rparr>]"
    by (simp add: nodeInfo_def connected_def stateOf_def mainView_def item1_def item2_def place1_def
        place2_def INITIAL_MODEL_def newConnector_def link12_def)
  have c: "map connectorInfo
             (connectorsOf (mainView [place1, place2] [newConnector uuidA ''k1'' link12]))
       = [\<lparr> ci_id = ''k1'', ci_from = ''n1'', ci_to = ''n2'', ci_style = Some SOLID,
                 ci_label = None \<rparr>]"
    by (simp add: connectorInfo_def connectorsOf_def orEmpty_def connected_def stateOf_def mainView_def item1_def item2_def place1_def
        place2_def INITIAL_MODEL_def newConnector_def link12_def)
  from read_unknown_view [OF pv unknown] pv ids n c show ?thesis by simp
qed


section \<open>The write rule of the renderer\<close>

lemma keepsContent_refl: "keepsContent g g"
  by (simp add: keepsContent_def)

lemma keepsContent_trans:
  assumes "keepsContent g g'" "keepsContent g' g''"
  shows "keepsContent g g''"
  unfolding keepsContent_def
proof (intro conjI allI impI)
  show "length g'' = length g"
    using assms by (simp add: keepsContent_def)
next
  fix r assume r: "r < length g"
  with assms show "length (g'' ! r) = length (g ! r)"
    by (simp add: keepsContent_def)
next
  fix r c assume r: "r < length g" and c: "c < length (g ! r)"
    and n: "\<not> overwritable (g ! r ! c)"
  from assms(1) r c n have 1: "g' ! r ! c = g ! r ! c" "length (g' ! r) = length (g ! r)"
    "length g' = length g"
    by (simp_all add: keepsContent_def)
  with assms(2) r c n have "g'' ! r ! c = g' ! r ! c"
    by (simp add: keepsContent_def)
  with 1 show "g'' ! r ! c = g ! r ! c" by simp
qed

lemma safeWrite_keeps: "keepsContent g (safeWrite g y x ch)"
proof (cases "0 \<le> y \<and> y < int (length g) \<and> 0 \<le> x \<and> x < int (length (g ! nat y))
               \<and> overwritable (g ! nat y ! nat x)")
  case False
  then have "safeWrite g y x ch = g"
    by (auto simp: safeWrite_def overwritable_def Let_def)
  then show ?thesis by (simp add: keepsContent_refl)
next
  case True
  then have w: "safeWrite g y x ch = g[nat y := (g ! nat y)[nat x := ch]]"
    by (auto simp: safeWrite_def overwritable_def Let_def)
  show ?thesis
    unfolding w keepsContent_def using True
    by (auto simp: nth_list_update)
qed

lemma fold_safeWrite_keeps:
  "keepsContent g (fold (\<lambda>i g. safeWrite g (fy i) (fx i) (fc i)) xs g)"
proof (induction xs arbitrary: g)
  case Nil
  then show ?case by (simp add: keepsContent_refl)
next
  case (Cons i xs)
  have "keepsContent g (safeWrite g (fy i) (fx i) (fc i))"
    by (rule safeWrite_keeps)
  moreover have "keepsContent (safeWrite g (fy i) (fx i) (fc i))
      (fold (\<lambda>i g. safeWrite g (fy i) (fx i) (fc i)) xs (safeWrite g (fy i) (fx i) (fc i)))"
    by (rule Cons.IH)
  ultimately show ?case
    by (simp add: keepsContent_trans)
qed

lemma keeps_safeWrite: "keepsContent g h \<Longrightarrow> keepsContent g (safeWrite h y x ch)"
  by (rule keepsContent_trans [OF _ safeWrite_keeps])

lemma keeps_fold:
  "keepsContent g h \<Longrightarrow>
   keepsContent g (fold (\<lambda>i g. safeWrite g (fy i) (fx i) (fc i)) xs h)"
  by (rule keepsContent_trans [OF _ fold_safeWrite_keeps])

lemma keeps_if:
  "keepsContent g a \<Longrightarrow> keepsContent g b \<Longrightarrow> keepsContent g (if c then a else b)"
  by simp

lemmas keeps_intros = keeps_if keeps_safeWrite keeps_fold keepsContent_refl

lemma drawLine_keeps: "keepsContent g (drawLine g x1 y1 x2 y2 showArrow)"
  unfolding drawLine_def Let_def
  by (intro keeps_intros)

lemma drawNodeBox_keeps: "keepsContent g (drawNodeBox g cx cy name icon)"
  unfolding drawNodeBox_def Let_def
  by (intro keeps_intros)

lemma keeps_drawLine: "keepsContent g h \<Longrightarrow> keepsContent g (drawLine h x1 y1 x2 y2 a)"
  by (rule keepsContent_trans [OF _ drawLine_keeps])

lemma keeps_drawNodeBox: "keepsContent g h \<Longrightarrow> keepsContent g (drawNodeBox h cx cy name icon)"
  by (rule keepsContent_trans [OF _ drawNodeBox_keeps])

lemma drawConnector_keeps: "keepsContent g (drawConnector view tcc connector g)"
  unfolding drawConnector_def Let_def
  by (auto split: option.splits intro: drawLine_keeps keepsContent_refl)

lemma drawNode_keeps: "keepsContent g (drawNode lookup tcc viewItem g)"
  unfolding drawNode_def Let_def
  by (auto split: option.splits intro: drawNodeBox_keeps keepsContent_refl)

lemma fold_keeps:
  assumes "\<And>x h. keepsContent h (f x h)"
  shows "keepsContent g (fold f xs g)"
proof (induction xs arbitrary: g)
  case Nil
  then show ?case by (simp add: keepsContent_refl)
next
  case (Cons x xs)
  from assms [of g x] Cons.IH [of "f x g"] show ?case
    by (simp add: keepsContent_trans)
qed

lemma safeWrite_overwrites:
  assumes "0 \<le> y" "y < int (length g)" "0 \<le> x" "x < int (length (g ! nat y))"
    and "overwritable (g ! nat y ! nat x)"
  shows "safeWrite g y x ch ! nat y ! nat x = ch"
  using assms by (simp add: safeWrite_def overwritable_def Let_def)

lemma safeWrite_blocked:
  assumes "0 \<le> y" "y < int (length g)" "0 \<le> x" "x < int (length (g ! nat y))"
    and "\<not> overwritable (g ! nat y ! nat x)"
  shows "safeWrite g y x ch = g"
  using assms by (simp add: safeWrite_def overwritable_def Let_def)

text \<open>
  What is not a blank or a straight segment stays: \<open>safeWrite\<close>, \<open>drawLine\<close>,
  \<open>drawNodeBox\<close>, the whole connector pass and the whole node pass keep the shape of
  the grid and every cell that is not overwritable. A write inside the grid lands
  exactly when the cell is overwritable.
\<close>

lemma passes_keep_content:
  "keepsContent g (safeWrite g y x ch)
   \<and> keepsContent g (drawLine g x1 y1 x2 y2 showArrow)
   \<and> keepsContent g (drawNodeBox g cx cy name icon)
   \<and> keepsContent g (fold (drawConnector view tcc) connectors g)
   \<and> keepsContent g (fold (drawNode lookup tcc) viewItems g)
   \<and> (0 \<le> y \<and> y < int (length g) \<and> 0 \<le> x \<and> x < int (length (g ! nat y)) \<longrightarrow>
        (if overwritable (g ! nat y ! nat x)
         then safeWrite g y x ch ! nat y ! nat x = ch
         else safeWrite g y x ch = g))"
  using safeWrite_keeps drawLine_keeps drawNodeBox_keeps
    fold_keeps [of "drawConnector view tcc", OF drawConnector_keeps]
    fold_keeps [of "drawNode lookup tcc", OF drawNode_keeps]
    safeWrite_overwrites [of y g x ch] safeWrite_blocked [of y g x ch]
  by simp

text \<open>
  The two models rendered. In each, the grid is the node boxes drawn over the grid
  of the connector pass.
\<close>

lemma arrows_render:
  "renderAsciiGrid arrowsModel
     = Some (drawNodeBox (drawNodeBox lineGrid 40 7 ''Source'' []) 56 7 ''Target'' [])
   \<and> lineGrid ! 7 ! 51 = HLine \<and> lineGrid ! 7 ! 53 = HLine \<and> lineGrid ! 7 ! 54 = ArrowRight
   \<and> take 10 (drop 51 (the (renderAsciiGrid arrowsModel) ! 7))
       = [VLine, Ch CHR '' '', Ch CHR ''T'', ArrowRight, Ch CHR ''r'', Ch CHR ''g'',
          Ch CHR ''e'', Ch CHR ''t'', Ch CHR '' '', VLine]"
  by code_simp

lemma diagonal_render:
  "renderAsciiGrid diagonalModel
       = Some (drawNodeBox (drawNodeBox diagonalLineGrid 40 7 ''Alpha'' [])
                 56 10 ''Orchestrator'' [])
   \<and> diagonalLineGrid ! 9 ! 48 = VLine \<and> diagonalLineGrid ! 10 ! 48 = BottomLeft
   \<and> diagonalLineGrid ! 10 ! 54 = ArrowRight
   \<and> take 16 (drop 48 (the (renderAsciiGrid diagonalModel) ! 10))
       = [BottomLeft, Ch CHR '' '', Ch CHR ''O'', Ch CHR ''r'', Ch CHR ''c'', Ch CHR ''h'',
          ArrowRight, Ch CHR ''s'', Ch CHR ''t'', Ch CHR ''r'', Ch CHR ''a'', Ch CHR ''t'',
          Ch CHR ''o'', Ch CHR ''r'', Ch CHR '' '', VLine]"
  by code_simp

text \<open>
  C7. The connectors are drawn before the nodes so that the nodes appear on top:
  the node pass is to draw over every line-drawing glyph that the connector pass
  left, and only what is neither blank nor line drawing is to be kept. The code
  draws over the straight segments only. In the grid of \<open>arrowsModel\<close> the connector
  pass leaves segments at columns 51 and 53 of row 7 and its arrow head at column 54;
  the box of the target replaces the segments by its border and by the letter \<open>T\<close>,
  but the arrow head stays where the letter \<open>a\<close> of \<open>Target\<close> belongs. In the grid of
  \<open>diagonalModel\<close> the corner that the connector leaves at column 48 of row 10 stays
  where the left border of the target's box belongs, and the arrow head stays where
  the letter \<open>e\<close> of \<open>Orchestrator\<close> belongs.
\<close>

theorem node_pass_leaves_connector_glyphs:
  "(renderAsciiGrid arrowsModel
      = Some (drawNodeBox (drawNodeBox lineGrid 40 7 ''Source'' []) 56 7 ''Target'' [])
    \<and> lineGrid ! 7 ! 51 = HLine \<and> lineGrid ! 7 ! 53 = HLine \<and> lineGrid ! 7 ! 54 = ArrowRight
    \<and> take 10 (drop 51 (the (renderAsciiGrid arrowsModel) ! 7))
        = [VLine, Ch CHR '' '', Ch CHR ''T'', ArrowRight, Ch CHR ''r'', Ch CHR ''g'',
           Ch CHR ''e'', Ch CHR ''t'', Ch CHR '' '', VLine])
   \<and> (renderAsciiGrid diagonalModel
        = Some (drawNodeBox (drawNodeBox diagonalLineGrid 40 7 ''Alpha'' [])
                  56 10 ''Orchestrator'' [])
      \<and> diagonalLineGrid ! 9 ! 48 = VLine \<and> diagonalLineGrid ! 10 ! 48 = BottomLeft
      \<and> diagonalLineGrid ! 10 ! 54 = ArrowRight
      \<and> take 16 (drop 48 (the (renderAsciiGrid diagonalModel) ! 10))
          = [BottomLeft, Ch CHR '' '', Ch CHR ''O'', Ch CHR ''r'', Ch CHR ''c'', Ch CHR ''h'',
             ArrowRight, Ch CHR ''s'', Ch CHR ''t'', Ch CHR ''r'', Ch CHR ''a'', Ch CHR ''t'',
             Ch CHR ''o'', Ch CHR ''r'', Ch CHR '' '', VLine])"
  by (rule conjI [OF arrows_render diagonal_render])

end
